theory Spec2Isabelle
  imports Main "HOL-Library.Word"
begin

unbundle bit_operations_syntax

text \<open>
  A shallow embedding of two files of PdfForQt: the document reader
  (\<open>pdfdocumentreader.cpp\<close>: the scan for the footer and the header, the two parallel
  phases that fill the object table, the security handler of the document) and the
  standard security handler (\<open>pdfsecurityhandler.cpp\<close>: the encryption dictionary, the
  key derivation of revisions 2 to 4, the hash of revision 6, the authentication loop).
  Exceptions are values of a sum type, member variables are passed and returned, loops
  are recursive functions, and what the two files call in other files or libraries is a
  parameter.
\<close>

section \<open>Bytes and byte arrays\<close>

text \<open>
  A \<open>QByteArray\<close>, a \<open>std::vector<uint8_t>\<close> and a \<open>std::array<uint8_t, n>\<close> are all
  lists of 8-bit words. Sizes and indices of the source are \<open>int\<close>; they stay far below
  the 32-bit range, so they are modelled as unbounded integers.
\<close>

type_synonym byte = "8 word"
type_synonym QByteArray = "byte list"

section \<open>PDFDocumentReader::findFromEnd\<close>

text \<open>
  \<open>std::find_end\<close> of the C++ standard library, on the range \<open>[first1, last1)\<close> of a
  sequence: the position where the last occurrence of the pattern starts, and \<open>last1\<close>
  when the pattern is empty or does not occur. Iterators are positions in the sequence.
\<close>

fun last_match :: "'a list \<Rightarrow> 'a list \<Rightarrow> nat option" where
  "last_match pat [] = None"
| "last_match pat (x # xs) =
     (case last_match pat xs of
        Some i \<Rightarrow> Some (Suc i)
      | None \<Rightarrow> if pat \<noteq> [] \<and> take (length pat) (x # xs) = pat then Some 0 else None)"

definition find_end :: "'a list \<Rightarrow> nat \<Rightarrow> nat \<Rightarrow> 'a list \<Rightarrow> nat" where
  "find_end s first1 last1 pat =
     (case last_match pat (take (last1 - first1) (drop first1 s)) of
        None \<Rightarrow> last1
      | Some i \<Rightarrow> first1 + i)"

text \<open>
  \<open>findFromEnd(what, byteArray, limit)\<close>. The sentinel \<open>FIND_NOT_FOUND_RESULT\<close> is declared
  in the reader's header, so it is the parameter \<open>notFound\<close>. \<open>what\<close> is the C string
  without its terminating zero.
\<close>

definition findFromEnd :: "int \<Rightarrow> QByteArray \<Rightarrow> QByteArray \<Rightarrow> int \<Rightarrow> int" where
  "findFromEnd notFound what byteArray limit =
     (if byteArray = [] then notFound
      else
        let bufSize = int (length byteArray);
            adjustedLimit = min bufSize limit;
            whatLength = int (length what)
        in if adjustedLimit < whatLength then notFound
           else
             let itBegin = nat (bufSize - adjustedLimit);
                 itEnd = length byteArray;
                 it = find_end byteArray itBegin itEnd what
             in if it \<noteq> length byteArray then int it else notFound)"

text \<open>An occurrence of the pattern at position \<open>i\<close> of the buffer.\<close>

definition occurs_at :: "'a list \<Rightarrow> 'a list \<Rightarrow> nat \<Rightarrow> bool" where
  "occurs_at pat s i \<longleftrightarrow> i + length pat \<le> length s \<and> take (length pat) (drop i s) = pat"

text \<open>
  The trailing window that a scan with the given limit may look at starts at
  \<open>window_start\<close>; \<open>last_in_window\<close> says that \<open>i\<close> is where the last occurrence
  of the pattern inside that window starts.
\<close>

definition window_start :: "'a list \<Rightarrow> int \<Rightarrow> nat" where
  "window_start byteArray limit =
     length byteArray - nat (min (int (length byteArray)) limit)"

definition last_in_window :: "'a list \<Rightarrow> 'a list \<Rightarrow> nat \<Rightarrow> nat \<Rightarrow> bool" where
  "last_in_window pat s start i \<longleftrightarrow>
     start \<le> i \<and> occurs_at pat s i \<and>
     (\<forall>j \<in> {start..length s}. occurs_at pat s j \<longrightarrow> j \<le> i)"

section \<open>The remainder modulo 3 in the revision 6 hash\<close>

text \<open>
  Step c) of \<open>createHash_r6\<close>: the inner loop adds the alternating weight of every set
  bit of one byte, the outer loop runs over \<open>E[0]\<close> to \<open>E[15]\<close>.
\<close>

definition bit_step :: "byte \<Rightarrow> nat \<Rightarrow> int \<times> int \<Rightarrow> int \<times> int" where
  "bit_step b i = (\<lambda>(remainderAccumulator, currentRemainder).
     ((if drop_bit i b AND 1 \<noteq> 0 then remainderAccumulator + currentRemainder
       else remainderAccumulator),
      3 - currentRemainder))"

definition byte_step :: "byte list \<Rightarrow> nat \<Rightarrow> int \<Rightarrow> int" where
  "byte_step E i remainderAccumulator =
     fst (fold (bit_step (E ! i)) [0..<8] (remainderAccumulator, 1))"

definition remainder_r6 :: "byte list \<Rightarrow> int" where
  "remainder_r6 E = fold (byte_step E) [0..<16] 0 mod 3"

text \<open>The unsigned big-endian integer that a byte sequence denotes.\<close>

definition be_uint :: "byte list \<Rightarrow> int" where
  "be_uint bs = foldl (\<lambda>a b. a * 256 + uint b) 0 bs"

text \<open>The contribution of one byte to the accumulator: weights 1, 2, 1, 2, ... from bit 0.\<close>

definition byte_weight :: "byte \<Rightarrow> int" where
  "byte_weight b = of_bool (bit b 0) + 2 * of_bool (bit b 1) + of_bool (bit b 2)
     + 2 * of_bool (bit b 3) + of_bool (bit b 4) + 2 * of_bool (bit b 5)
     + of_bool (bit b 6) + 2 * of_bool (bit b 7)"

section \<open>Objects, exceptions and library functions\<close>

text \<open>
  Modelled from the spec: the object variant \<open>PDFObject\<close> with its dictionary
  (\<open>pdfobject.h\<close> is not under \<open>src\<close>). An integer object holds a \<open>PDFInteger\<close>; a
  real number is kept as mantissa and exponent and is never read here. Names and dictionary
  keys are byte strings written as \<open>string\<close>; the payload of a string object is a
  \<open>QByteArray\<close>. \<open>dict_get\<close> is \<open>PDFDictionary::get\<close>, which answers a null object for a
  key that is absent, and \<open>hasKey\<close> is \<open>PDFDictionary::hasKey\<close>.
\<close>

datatype PDFObject =
    Null
  | Bool bool
  | Integer int
  | Real int int
  | String QByteArray
  | Name string
  | Array "PDFObject list"
  | Dictionary "(string \<times> PDFObject) list"
  | Stream "(string \<times> PDFObject) list" QByteArray
  | Reference int int

type_synonym PDFDictionary = "(string \<times> PDFObject) list"

fun dict_get :: "PDFDictionary \<Rightarrow> string \<Rightarrow> PDFObject" where
  "dict_get [] key = Null"
| "dict_get ((k, v) # es) key = (if k = key then v else dict_get es key)"

definition hasKey :: "PDFDictionary \<Rightarrow> string \<Rightarrow> bool" where
  "hasKey dictionary key \<longleftrightarrow> key \<in> set (map fst dictionary)"

fun isNull :: "PDFObject \<Rightarrow> bool" where
  "isNull Null = True"
| "isNull _ = False"

fun asName :: "PDFObject \<Rightarrow> string option" where
  "asName (Name n) = Some n"
| "asName _ = None"

fun asInt :: "PDFObject \<Rightarrow> int option" where
  "asInt (Integer i) = Some i"
| "asInt _ = None"

fun asString :: "PDFObject \<Rightarrow> QByteArray option" where
  "asString (String bs) = Some bs"
| "asString _ = None"

fun asBool :: "PDFObject \<Rightarrow> bool option" where
  "asBool (Bool b) = Some b"
| "asBool _ = None"

fun asDictionary :: "PDFObject \<Rightarrow> PDFDictionary option" where
  "asDictionary (Dictionary d) = Some d"
| "asDictionary _ = None"

text \<open>
  A \<open>PDFParserException\<close> carries a translated message; the model has one constructor
  for every message of the two source files, with the message's arguments, and \<open>Other\<close>
  for what the lexical analyzer, the parser and the cross-reference reader raise.
\<close>

datatype PDFParserException =
    EndOfFileMarkNotFound
  | StartOfXRefNotFound
  | HeaderNotFound
  | VersionNotValid
  | CantReadObject int
  | InvalidTrailerDictionary
  | AuthorizationFailed
  | ObjectStreamNotFound int
  | ObjectStreamInvalid int
  | InvalidEncryptionDictionary
  | NameExpected string
  | IntegerExpected string
  | UnknownSecurityHandler
  | UnsupportedEncryptionVersion int
  | CryptFilterNotDictionary
  | UnsupportedAlgorithm string
  | UnsupportedAuthorizationEvent string
  | UnknownCryptFilter string
  | RevisionNotSupported int
  | ExpectedString int string "int option"
  | KeyLengthExceeded int
  | Other string

text \<open>A \<open>throw\<close> is \<open>Inl\<close>; \<open>bindE\<close> runs the rest of a function when nothing was thrown.\<close>

definition bindE :: "'e + 'a \<Rightarrow> ('a \<Rightarrow> 'e + 'b) \<Rightarrow> 'e + 'b" where
  "bindE r f = (case r of Inl e \<Rightarrow> Inl e | Inr v \<Rightarrow> f v)"

text \<open>
  The functions of OpenSSL and Qt that the security handler calls are parameters of the
  model: \<open>md5\<close> is \<open>MD5_Init\<close>, the \<open>MD5_Update\<close>s (their data concatenated) and
  \<open>MD5_Final\<close>; \<open>rc4 key data\<close> is \<open>RC4_set_key\<close> followed by one \<open>RC4\<close>;
  \<open>aes_cbc_encrypt key iv data\<close> and \<open>aes_cbc_decrypt key iv data\<close> are
  \<open>AES_set_encrypt_key\<close> or \<open>AES_set_decrypt_key\<close> followed by \<open>AES_cbc_encrypt\<close>;
  \<open>toUtf8\<close> is \<open>QString::toUtf8\<close>.
\<close>

record library =
  md5 :: "QByteArray \<Rightarrow> QByteArray"
  rc4 :: "QByteArray \<Rightarrow> QByteArray \<Rightarrow> QByteArray"
  sha256 :: "QByteArray \<Rightarrow> QByteArray"
  sha384 :: "QByteArray \<Rightarrow> QByteArray"
  sha512 :: "QByteArray \<Rightarrow> QByteArray"
  aes_cbc_encrypt :: "QByteArray \<Rightarrow> QByteArray \<Rightarrow> QByteArray \<Rightarrow> QByteArray"
  aes_cbc_decrypt :: "QByteArray \<Rightarrow> QByteArray \<Rightarrow> QByteArray \<Rightarrow> QByteArray"
  toUtf8 :: "string \<Rightarrow> QByteArray"

text \<open>
  What the library guarantees about sizes: the digests have 16, 32, 48 and 64 bytes, the
  ciphers write as many bytes as they read.
\<close>

definition library_sizes :: "library \<Rightarrow> bool" where
  "library_sizes lib \<longleftrightarrow>
     (\<forall>x. length (md5 lib x) = 16) \<and>
     (\<forall>k x. length (rc4 lib k x) = length x) \<and>
     (\<forall>x. length (sha256 lib x) = 32) \<and>
     (\<forall>x. length (sha384 lib x) = 48) \<and>
     (\<forall>x. length (sha512 lib x) = 64) \<and>
     (\<forall>k iv x. length (aes_cbc_encrypt lib k iv x) = length x) \<and>
     (\<forall>k iv x. length (aes_cbc_decrypt lib k iv x) = length x)"

section \<open>The standard security handler\<close>

datatype CryptFilterType = None' | Identity | V2 | AESV2 | AESV3

datatype AuthEvent = DocOpen | EFOpen

record CryptFilter =
  type :: CryptFilterType
  authEvent :: AuthEvent

datatype AuthorizationResult = Failed | Cancelled | UserAuthorized | OwnerAuthorized

record AuthorizationData =
  authorizationResult :: AuthorizationResult
  fileEncryptionKey :: QByteArray

text \<open>
  Modelled from the spec: \<open>AuthorizationData\<close> is declared in \<open>pdfsecurityhandler.h\<close>,
  which is not under \<open>src\<close>. A default-constructed value is not authorized and has no
  key; \<open>isAuthorized\<close> holds for the two authorized outcomes.
\<close>

definition AuthorizationData_default :: AuthorizationData where
  "AuthorizationData_default = \<lparr>authorizationResult = Failed, fileEncryptionKey = []\<rparr>"

definition isAuthorized :: "AuthorizationData \<Rightarrow> bool" where
  "isAuthorized d \<longleftrightarrow>
     authorizationResult d = UserAuthorized \<or> authorizationResult d = OwnerAuthorized"

record PDFStandardSecurityHandler =
  m_V :: int
  m_keyLength :: int
  m_R :: int
  m_O :: QByteArray
  m_U :: QByteArray
  m_OE :: QByteArray
  m_UE :: QByteArray
  m_Perms :: QByteArray
  m_permissions :: "32 word"
  m_encryptMetadata :: bool
  m_ID :: QByteArray
  m_cryptFilters :: "string \<rightharpoonup> CryptFilter"
  m_filterStreams :: CryptFilter
  m_filterStrings :: CryptFilter
  m_filterEmbeddedFiles :: CryptFilter
  m_authorizationData :: AuthorizationData

datatype PDFSecurityHandler = PDFNoneSecurityHandler | Standard PDFStandardSecurityHandler

definition PDFPasswordPadding :: "byte list" where
  "PDFPasswordPadding =
     [0x28, 0xBF, 0x4E, 0x5E, 0x4E, 0x75, 0x8A, 0x41,
      0x64, 0x00, 0x4E, 0x56, 0xFF, 0xFA, 0x01, 0x08,
      0x2E, 0x2E, 0x00, 0xB6, 0xD0, 0x68, 0x3E, 0x80,
      0x2F, 0x0C, 0xA9, 0xFE, 0x64, 0x53, 0x69, 0x7A]"

subsection \<open>createSecurityHandler\<close>

text \<open>\<open>static_cast<int>\<close> of a \<open>PDFInteger\<close>: the low 32 bits, read as signed.\<close>

definition to_int :: "int \<Rightarrow> int" where
  "to_int x = sint (word_of_int x :: 32 word)"

definition getName ::
  "PDFDictionary \<Rightarrow> string \<Rightarrow> bool \<Rightarrow> string option \<Rightarrow> PDFParserException + string" where
  "getName dictionary key required defaultValue =
     (let nameObject = dict_get dictionary key
      in if isNull nameObject
         then Inr (case defaultValue of Some d \<Rightarrow> d | None \<Rightarrow> [])
         else case asName nameObject of
                None \<Rightarrow>
                  if required then Inl (NameExpected key)
                  else Inr (case defaultValue of Some d \<Rightarrow> d | None \<Rightarrow> [])
              | Some n \<Rightarrow> Inr n)"

definition getInt ::
  "PDFDictionary \<Rightarrow> string \<Rightarrow> bool \<Rightarrow> int \<Rightarrow> PDFParserException + int" where
  "getInt dictionary key required defaultValue =
     (case asInt (dict_get dictionary key) of
        None \<Rightarrow> if required then Inl (IntegerExpected key) else Inr defaultValue
      | Some i \<Rightarrow> Inr i)"

definition parseCryptFilter :: "PDFObject \<Rightarrow> PDFParserException + CryptFilter" where
  "parseCryptFilter object =
     (case asDictionary object of
        None \<Rightarrow> Inl CryptFilterNotDictionary
      | Some cryptFilterDictionary \<Rightarrow>
          bindE (getName cryptFilterDictionary ''CFM'' False (Some ''None'')) (\<lambda>CFMName.
          bindE (if CFMName = ''None'' then Inr None'
                 else if CFMName = ''V2'' then Inr V2
                 else if CFMName = ''AESV2'' then Inr AESV2
                 else if CFMName = ''AESV3'' then Inr AESV3
                 else Inl (UnsupportedAlgorithm CFMName)) (\<lambda>filterType.
          bindE (getName cryptFilterDictionary ''AuthEvent'' False (Some ''DocOpen''))
            (\<lambda>authEventName.
          if authEventName = ''DocOpen''
          then Inr \<lparr>type = filterType, authEvent = DocOpen\<rparr>
          else if authEventName = ''EFOpen''
          then Inr \<lparr>type = filterType, authEvent = EFOpen\<rparr>
          else Inl (UnsupportedAuthorizationEvent authEventName)))))"

text \<open>The loop over the entries of \<open>CF\<close>: \<open>m_cryptFilters[key] = parseCryptFilter(value)\<close>.\<close>

fun parseCryptFilters ::
  "PDFDictionary \<Rightarrow> (string \<rightharpoonup> CryptFilter) \<Rightarrow> PDFParserException + (string \<rightharpoonup> CryptFilter)" where
  "parseCryptFilters [] filters = Inr filters"
| "parseCryptFilters ((key, value) # rest) filters =
     (case parseCryptFilter value of
        Inl e \<Rightarrow> Inl e
      | Inr f \<Rightarrow> parseCryptFilters rest (filters(key \<mapsto> f)))"

definition resolveFilter ::
  "PDFStandardSecurityHandler \<Rightarrow> string \<Rightarrow> PDFParserException + CryptFilter" where
  "resolveFilter handler name =
     (case m_cryptFilters handler name of
        None \<Rightarrow> Inl (UnknownCryptFilter name)
      | Some f \<Rightarrow> Inr f)"

definition readByteArray ::
  "PDFDictionary \<Rightarrow> string \<Rightarrow> int \<Rightarrow> PDFParserException + QByteArray" where
  "readByteArray dictionary key size' =
     (case asString (dict_get dictionary key) of
        Some result \<Rightarrow>
          if int (length result) \<noteq> size'
          then Inl (ExpectedString size' key (Some (int (length result))))
          else Inr result
      | None \<Rightarrow> Inl (ExpectedString size' key None))"

text \<open>The block that runs for \<open>V == 4 || V == 5\<close>: the table \<open>CF\<close>, then the three filters.\<close>

definition readCryptFilters ::
  "PDFDictionary \<Rightarrow> PDFStandardSecurityHandler \<Rightarrow> PDFParserException + PDFStandardSecurityHandler" where
  "readCryptFilters dictionary handler =
     bindE (case asDictionary (dict_get dictionary ''CF'') of
              Some cryptFilters \<Rightarrow> parseCryptFilters cryptFilters (m_cryptFilters handler)
            | None \<Rightarrow> Inr (m_cryptFilters handler)) (\<lambda>filters.
     let handler = handler\<lparr>m_cryptFilters := filters\<rparr> in
     bindE (bindE (getName dictionary ''StmF'' False (Some ''Identity'')) (resolveFilter handler))
       (\<lambda>filterStreams.
     let handler = handler\<lparr>m_filterStreams := filterStreams\<rparr> in
     bindE (bindE (getName dictionary ''StrF'' False (Some ''Identity'')) (resolveFilter handler))
       (\<lambda>filterStrings.
     let handler = handler\<lparr>m_filterStrings := filterStrings\<rparr> in
     if hasKey dictionary ''EFF''
     then bindE (bindE (getName dictionary ''EFF'' True None) (resolveFilter handler))
            (\<lambda>filterEmbeddedFiles.
               Inr (handler\<lparr>m_filterEmbeddedFiles := filterEmbeddedFiles\<rparr>))
     else Inr (handler\<lparr>m_filterEmbeddedFiles := m_filterStreams handler\<rparr>))))"

text \<open>
  \<open>createSecurityHandler(encryptionDictionaryObject, id)\<close>, in the three consecutive
  parts of its body. The default-constructed handler and the default-constructed
  \<open>CryptFilter\<close> come from the header, so they are the parameters \<open>handler0\<close> and
  \<open>filter0\<close>.

  First part: \<open>Filter\<close>, \<open>V\<close>, the key length and the \<open>Identity\<close> filter.
\<close>

definition readVersion ::
  "PDFStandardSecurityHandler \<Rightarrow> CryptFilter \<Rightarrow> PDFDictionary
     \<Rightarrow> PDFParserException + PDFStandardSecurityHandler" where
  "readVersion handler0 filter0 dictionary =
     bindE (getName dictionary ''Filter'' True None) (\<lambda>filterName.
     if filterName \<noteq> ''Standard'' then Inl UnknownSecurityHandler else
     bindE (getInt dictionary ''V'' True (- 1)) (\<lambda>V64.
     let V = to_int V64 in
     if V < 1 \<or> V > 5 then Inl (UnsupportedEncryptionVersion V) else
     bindE (if V = 1 then Inr 40
            else if V = 2 \<or> V = 3
            then bindE (getInt dictionary ''Length'' False 40) (\<lambda>l. Inr (to_int l))
            else if V = 4 then Inr 128
            else Inr 256) (\<lambda>Length.
     let handler = handler0\<lparr>m_V := V, m_keyLength := Length\<rparr>;
         identityFilter = filter0\<lparr>type := Identity\<rparr>
     in Inr (handler\<lparr>m_cryptFilters :=
                (m_cryptFilters handler)(''Identity'' \<mapsto> identityFilter)\<rparr>))))"

text \<open>
  Last part: \<open>R\<close>, the byte strings \<open>O\<close> and \<open>U\<close>, the permissions, for revision 6
  \<open>OE\<close>, \<open>UE\<close> and \<open>Perms\<close>, then \<open>EncryptMetadata\<close> and the document id.
\<close>

definition readRevision ::
  "PDFDictionary \<Rightarrow> PDFStandardSecurityHandler \<Rightarrow> QByteArray
     \<Rightarrow> PDFParserException + PDFStandardSecurityHandler" where
  "readRevision dictionary handler id' =
     bindE (getInt dictionary ''R'' True (- 1)) (\<lambda>R64.
     let R = to_int R64 in
     if R < 2 \<or> R > 6 \<or> R = 5 then Inl (RevisionNotSupported R) else
     let handler = handler\<lparr>m_R := R\<rparr> in
     bindE (readByteArray dictionary ''O'' (if R \<noteq> 6 then 32 else 48)) (\<lambda>entryO.
     bindE (readByteArray dictionary ''U'' (if R \<noteq> 6 then 32 else 48)) (\<lambda>entryU.
     let handler = handler\<lparr>m_O := entryO, m_U := entryU\<rparr> in
     bindE (getInt dictionary ''P'' True (- 1)) (\<lambda>P.
     let handler = handler\<lparr>m_permissions := word_of_int (to_int P)\<rparr> in
     bindE (if R = 6
            then bindE (readByteArray dictionary ''OE'' 32) (\<lambda>OE.
                 bindE (readByteArray dictionary ''UE'' 32) (\<lambda>UE.
                 bindE (readByteArray dictionary ''Perms'' 16) (\<lambda>Perms.
                   Inr (handler\<lparr>m_OE := OE, m_UE := UE, m_Perms := Perms\<rparr>))))
            else Inr handler) (\<lambda>handler.
     let handler = (case asBool (dict_get dictionary ''EncryptMetadata'') of
                      Some b \<Rightarrow> handler\<lparr>m_encryptMetadata := b\<rparr>
                    | None \<Rightarrow> handler)
     in Inr (handler\<lparr>m_ID := id'\<rparr>))))))"

definition createSecurityHandler ::
  "PDFStandardSecurityHandler \<Rightarrow> CryptFilter \<Rightarrow> PDFObject \<Rightarrow> QByteArray
     \<Rightarrow> PDFParserException + PDFSecurityHandler" where
  "createSecurityHandler handler0 filter0 encryptionDictionaryObject id' =
     (if isNull encryptionDictionaryObject then Inr PDFNoneSecurityHandler
      else case asDictionary encryptionDictionaryObject of
        None \<Rightarrow> Inl InvalidEncryptionDictionary
      | Some dictionary \<Rightarrow>
          bindE (readVersion handler0 filter0 dictionary) (\<lambda>handler.
          bindE (if m_V handler = 4 \<or> m_V handler = 5
                 then readCryptFilters dictionary handler
                 else Inr handler) (\<lambda>handler.
          bindE (readRevision dictionary handler id') (\<lambda>handler.
          Inr (Standard handler)))))"

subsection \<open>Key derivation for revisions 2, 3 and 4\<close>

definition createPaddedPassword32 :: "QByteArray \<Rightarrow> byte list" where
  "createPaddedPassword32 password =
     (let copiedBytes = min 32 (length password)
      in take copiedBytes password @ take (32 - copiedBytes) PDFPasswordPadding)"

text \<open>The four bytes in memory of \<open>qToLittleEndian\<close> of a 32-bit value.\<close>

definition le_bytes32 :: "32 word \<Rightarrow> byte list" where
  "le_bytes32 w = map (\<lambda>i. ucast (drop_bit (8 * i) w)) [0..<4]"

text \<open>
  One round of the loops \<open>for (int i = 0; i < 50; ++i)\<close>: the digest of the first
  \<open>keyByteLength\<close> bytes replaces the 16-byte buffer.
\<close>

definition rehash :: "library \<Rightarrow> int \<Rightarrow> byte list \<Rightarrow> byte list" where
  "rehash lib keyByteLength buffer = md5 lib (take (nat keyByteLength) buffer)"

text \<open>
  \<open>createFileEncryptionKey(password)\<close>. \<open>m_keyLength / 8\<close> is taken on a key length that
  is not negative, where the division of C++ and \<open>div\<close> agree; a negative length makes
  \<open>MD5_Update\<close> read out of bounds and is outside the model. For revision 6 the source
  only asserts and returns the empty array.
\<close>

definition createFileEncryptionKey ::
  "library \<Rightarrow> PDFStandardSecurityHandler \<Rightarrow> QByteArray \<Rightarrow> PDFParserException + QByteArray" where
  "createFileEncryptionKey lib h password =
     (if m_R h = 2 \<or> m_R h = 3 \<or> m_R h = 4 then
        let paddedPassword = createPaddedPassword32 password;
            transformedPermissions = le_bytes32 (m_permissions h);
            fileEncryptionKey =
              md5 lib (paddedPassword @ m_O h @ transformedPermissions @ m_ID h @
                       (if \<not> m_encryptMetadata h then [0xFF, 0xFF, 0xFF, 0xFF] else []));
            keyByteLength = m_keyLength h div 8
        in if keyByteLength > 16 then Inl (KeyLengthExceeded keyByteLength)
           else
             let fileEncryptionKey =
                   (if m_R h \<ge> 3 then (rehash lib keyByteLength ^^ 50) fileEncryptionKey
                    else fileEncryptionKey)
             in Inr (take (nat keyByteLength) fileEncryptionKey)
      else if m_R h = 6 then Inr []
      else Inl (RevisionNotSupported (m_R h)))"

text \<open>
  \<open>std::copy_n(src.begin(), n, dst.begin())\<close> into a buffer that keeps its size; the
  source calls it with \<open>n\<close> within both sizes.
\<close>

definition copy_n :: "'a list \<Rightarrow> nat \<Rightarrow> 'a list \<Rightarrow> 'a list" where
  "copy_n src n dst = take n src @ drop n dst"

text \<open>The key of pass \<open>i\<close>: every byte of the key XORed with \<open>i\<close>.\<close>

definition xor_key :: "byte list \<Rightarrow> nat \<Rightarrow> byte list" where
  "xor_key key i = map (\<lambda>b. b XOR of_nat i) key"

definition createEntryValueU_r234 ::
  "library \<Rightarrow> PDFStandardSecurityHandler \<Rightarrow> QByteArray \<Rightarrow> PDFParserException + QByteArray" where
  "createEntryValueU_r234 lib h fileEncryptionKey' =
     (if m_R h = 2 then Inr (rc4 lib fileEncryptionKey' PDFPasswordPadding)
      else if m_R h = 3 \<or> m_R h = 4 then
        let hash = md5 lib (PDFPasswordPadding @ m_ID h);
            encryptedHash = rc4 lib fileEncryptionKey' hash;
            encryptedHash =
              fold (\<lambda>i encryptedHash. rc4 lib (xor_key fileEncryptionKey' i) encryptedHash)
                [1..<20] encryptedHash
        in Inr (copy_n encryptedHash 16 (m_U h))
      else Inl (RevisionNotSupported (m_R h)))"

definition createUserPasswordFromOwnerPassword ::
  "library \<Rightarrow> PDFStandardSecurityHandler \<Rightarrow> QByteArray \<Rightarrow> PDFParserException + QByteArray" where
  "createUserPasswordFromOwnerPassword lib h password =
     (let paddedPassword = createPaddedPassword32 password;
          hash = md5 lib paddedPassword;
          keyByteLength = m_keyLength h div 8
      in if keyByteLength > 16 then Inl (KeyLengthExceeded keyByteLength)
         else
           let hash = (if m_R h \<ge> 3 then (rehash lib keyByteLength ^^ 50) hash else hash)
           in if m_R h = 2 then Inr (rc4 lib (take (nat keyByteLength) hash) (m_O h))
              else if m_R h = 3 \<or> m_R h = 4 then
                Inr (fold (\<lambda>i buffer. rc4 lib (xor_key (take (nat keyByteLength) hash) i) buffer)
                       (rev [0..<20]) (m_O h))
              else Inl (RevisionNotSupported (m_R h)))"

subsection \<open>The hash of revision 6\<close>

text \<open>
  The loop \<open>while (round < 64 || round < E.back() + 32)\<close> with its state \<open>K\<close>, \<open>E\<close> and
  \<open>round\<close>. In round 0 the vector \<open>E\<close> is empty and \<open>||\<close> does not evaluate
  \<open>E.back()\<close>. The result is the state at the exit of the loop; \<open>round\<close> counts the
  rounds that ran.
\<close>

function createHash_r6_loop ::
  "library \<Rightarrow> byte list \<Rightarrow> byte list \<Rightarrow> byte list \<Rightarrow> byte list \<Rightarrow> int
     \<Rightarrow> byte list \<times> byte list \<times> int" where
  "createHash_r6_loop lib password userKey K E round =
     (if round < 64 \<or> round < uint (last E) + 32 then
        let K1 = concat (replicate 64 (password @ K @ userKey));
            E = aes_cbc_encrypt lib (take 16 K) (take 16 (drop 16 K)) K1;
            remainderAccumulator = remainder_r6 E;
            K = (if remainderAccumulator = 0 then sha256 lib E
                 else if remainderAccumulator = 1 then sha384 lib E
                 else if remainderAccumulator = 2 then sha512 lib E
                 else K)
        in createHash_r6_loop lib password userKey K E (round + 1)
      else (K, E, round))"
  by pat_completeness auto
termination
proof (relation "measure (\<lambda>(lib, password, userKey, K, E, round). nat (287 - round))")
  show "wf (measure (\<lambda>(lib, password, userKey, K, E, round). nat (287 - round)))"
    by simp
next
  fix lib :: library and password userKey K E :: "byte list" and round :: int
    and K1 E' :: "byte list" and r :: int and K' :: "byte list"
  assume c: "round < 64 \<or> round < uint (last E) + 32"
  have "uint (last E) < 256"
    using uint_lt2p [of "last E"] by simp
  with c have "round < 287" by linarith
  then show "((lib, password, userKey, K', E', round + 1), (lib, password, userKey, K, E, round))
      \<in> measure (\<lambda>(lib, password, userKey, K, E, round). nat (287 - round))"
    by simp
qed

text \<open>The equation of the loop is unfolded by hand, one round at a time.\<close>

declare createHash_r6_loop.simps [simp del]

definition createHash_r6 ::
  "library \<Rightarrow> PDFStandardSecurityHandler \<Rightarrow> QByteArray \<Rightarrow> QByteArray \<Rightarrow> bool \<Rightarrow> QByteArray" where
  "createHash_r6 lib h input inputPassword useUserKey =
     (let K = sha256 lib input;
          userKey = (if useUserKey then m_U h else []);
          password = inputPassword;
          (K, E, round) = createHash_r6_loop lib password userKey K [] 0
      in take 32 K)"

record UserOwnerData_r6 =
  hash :: QByteArray
  validationSalt :: QByteArray
  keySalt :: QByteArray

definition parseParts :: "QByteArray \<Rightarrow> UserOwnerData_r6" where
  "parseParts data =
     \<lparr>hash = take 32 data,
      validationSalt = take 8 (drop 32 data),
      keySalt = take 8 (drop 40 data)\<rparr>"

subsection \<open>authenticate\<close>

text \<open>
  One pass through the \<open>switch\<close> inside the loop of \<open>authenticate\<close>, for the candidate
  \<open>password\<close>: an exception, or the handler after the pass together with \<open>Some\<close> result
  where the source returns and \<open>None\<close> where it leaves the \<open>switch\<close> by \<open>break\<close>.
\<close>

definition zeroInitializationVector :: "byte list" where
  "zeroInitializationVector = replicate 16 0"

definition authorize ::
  "PDFStandardSecurityHandler \<Rightarrow> AuthorizationResult \<Rightarrow> QByteArray \<Rightarrow> PDFStandardSecurityHandler" where
  "authorize h r key =
     h\<lparr>m_authorizationData := \<lparr>authorizationResult = r, fileEncryptionKey = key\<rparr>\<rparr>"

definition authenticate_r234 ::
  "library \<Rightarrow> PDFStandardSecurityHandler \<Rightarrow> QByteArray
     \<Rightarrow> PDFParserException + (AuthorizationResult option \<times> PDFStandardSecurityHandler)" where
  "authenticate_r234 lib h password =
     bindE (createUserPasswordFromOwnerPassword lib h password) (\<lambda>userPassword.
     bindE (createFileEncryptionKey lib h userPassword) (\<lambda>fileEncryptionKey.
     bindE (createEntryValueU_r234 lib h fileEncryptionKey) (\<lambda>U.
     if U = m_U h
     then Inr (Some OwnerAuthorized, authorize h OwnerAuthorized fileEncryptionKey)
     else
       bindE (createFileEncryptionKey lib h password) (\<lambda>fileEncryptionKey.
       bindE (createEntryValueU_r234 lib h fileEncryptionKey) (\<lambda>U.
       if U = m_U h
       then Inr (Some UserAuthorized, authorize h UserAuthorized fileEncryptionKey)
       else Inr (None, h))))))"

definition authenticate_r6 ::
  "library \<Rightarrow> PDFStandardSecurityHandler \<Rightarrow> QByteArray
     \<Rightarrow> PDFParserException + (AuthorizationResult option \<times> PDFStandardSecurityHandler)" where
  "authenticate_r6 lib h password =
     (let userData = parseParts (m_U h);
          ownerData = parseParts (m_O h);
          h = (let inputData = password @ validationSalt ownerData @ m_U h;
                   hash' = createHash_r6 lib h inputData password True
               in if hash' = hash ownerData then
                    let fileEncryptionKeyInputData = password @ keySalt ownerData @ m_U h;
                        fileEncryptionDecryptionKey =
                          createHash_r6 lib h fileEncryptionKeyInputData password True
                    in authorize h OwnerAuthorized
                         (aes_cbc_decrypt lib fileEncryptionDecryptionKey
                            zeroInitializationVector (m_OE h))
                  else h);
          h = (if \<not> isAuthorized (m_authorizationData h) then
                 let inputData = password @ validationSalt userData;
                     hash' = createHash_r6 lib h inputData password False
                 in if hash' = hash userData then
                      let fileEncryptionKeyInputData = password @ keySalt userData;
                          fileEncryptionDecryptionKey =
                            createHash_r6 lib h fileEncryptionKeyInputData password False
                      in authorize h UserAuthorized
                           (aes_cbc_decrypt lib fileEncryptionDecryptionKey
                              zeroInitializationVector (m_OE h))
                    else h
               else h)
      in if isAuthorized (m_authorizationData h)
         then Inr (Some (authorizationResult (m_authorizationData h)), h)
         else Inr (None, h))"

definition authenticate_pass ::
  "library \<Rightarrow> PDFStandardSecurityHandler \<Rightarrow> QByteArray
     \<Rightarrow> PDFParserException + (AuthorizationResult option \<times> PDFStandardSecurityHandler)" where
  "authenticate_pass lib h password =
     (if m_R h = 2 \<or> m_R h = 3 \<or> m_R h = 4 then authenticate_r234 lib h password
      else if m_R h = 6 then authenticate_r6 lib h password
      else Inr (Some Failed, h))"

text \<open>
  The password provider is the sequence of its answers: \<open>getPasswordCallback n\<close> is the
  text it returns at its call number \<open>n\<close> (from 0) and the value it leaves in
  \<open>passwordObtained\<close>. The loop can run for ever, so it has fuel: \<open>None\<close> says that the
  fuel ran out. A result carries the outcome, the handler and the number of calls of the
  provider.
\<close>

fun authenticate_loop ::
  "nat \<Rightarrow> library \<Rightarrow> (nat \<Rightarrow> string \<times> bool) \<Rightarrow> PDFStandardSecurityHandler \<Rightarrow> QByteArray \<Rightarrow> nat
     \<Rightarrow> (PDFParserException + AuthorizationResult \<times> PDFStandardSecurityHandler \<times> nat) option" where
  "authenticate_loop 0 lib getPasswordCallback h password calls = None"
| "authenticate_loop (Suc fuel) lib getPasswordCallback h password calls =
     (case authenticate_pass lib h password of
        Inl e \<Rightarrow> Some (Inl e)
      | Inr (Some r, h') \<Rightarrow> Some (Inr (r, h', calls))
      | Inr (None, h') \<Rightarrow>
          let (text, passwordObtained) = getPasswordCallback calls;
              password = toUtf8 lib text
          in if passwordObtained
             then authenticate_loop fuel lib getPasswordCallback h' password (calls + 1)
             else Some (Inr (Cancelled, h', calls + 1)))"

definition authenticate ::
  "nat \<Rightarrow> library \<Rightarrow> (nat \<Rightarrow> string \<times> bool) \<Rightarrow> PDFStandardSecurityHandler
     \<Rightarrow> (PDFParserException + AuthorizationResult \<times> PDFStandardSecurityHandler \<times> nat) option" where
  "authenticate fuel lib getPasswordCallback h =
     authenticate_loop fuel lib getPasswordCallback
       (h\<lparr>m_authorizationData := AuthorizationData_default\<rparr>) [] 0"

text \<open>
  The candidate passwords in the order \<open>authenticate\<close> tries them: the empty one, then
  the answers of the provider.
\<close>

fun candidate :: "library \<Rightarrow> (nat \<Rightarrow> string \<times> bool) \<Rightarrow> nat \<Rightarrow> QByteArray" where
  "candidate lib getPasswordCallback 0 = []"
| "candidate lib getPasswordCallback (Suc n) = toUtf8 lib (fst (getPasswordCallback n))"

text \<open>A pass that authorizes nothing and leaves the \<open>switch\<close> by \<open>break\<close>.\<close>

definition exhausted :: "library \<Rightarrow> PDFStandardSecurityHandler \<Rightarrow> QByteArray \<Rightarrow> bool" where
  "exhausted lib h password \<longleftrightarrow>
     (case authenticate_pass lib h password of Inr (None, h') \<Rightarrow> True | _ \<Rightarrow> False)"

text \<open>The handler after \<open>authenticate\<close> has cleared the authorization data.\<close>

definition cleared :: "PDFStandardSecurityHandler \<Rightarrow> PDFStandardSecurityHandler" where
  "cleared h = h\<lparr>m_authorizationData := AuthorizationData_default\<rparr>"

section \<open>The document reader\<close>

text \<open>
  Modelled from the spec: the object reference, the cross-reference table with its
  entries, the token of the lexical analyzer, the version and the object storage are
  declared in files that are not under \<open>src\<close>. The field \<open>type\<close> of a cross-reference
  entry is \<open>entryType\<close> here and the field \<open>generation\<close> of a storage entry is
  \<open>entryGeneration\<close>, since a record field has one owner. A default-constructed storage
  entry holds generation 0 and the null object; a default-constructed document has no
  objects, a null trailer and no security handler.
\<close>

record PDFObjectReference =
  objectNumber :: int
  generation :: int

datatype EntryType = Free | Occupied | InObjectStream

record XRefEntry =
  entryType :: EntryType
  reference :: PDFObjectReference
  offset :: int
  objectStream :: PDFObjectReference
  objectStreamIndex :: int

record PDFXRefTable =
  m_entries :: "XRefEntry list"
  m_trailerDictionary :: PDFObject

definition getSize :: "PDFXRefTable \<Rightarrow> nat" where
  "getSize xrefTable = length (m_entries xrefTable)"

definition getOccupiedEntries :: "PDFXRefTable \<Rightarrow> XRefEntry list" where
  "getOccupiedEntries xrefTable = filter (\<lambda>e. entryType e = Occupied) (m_entries xrefTable)"

definition getObjectStreamEntries :: "PDFXRefTable \<Rightarrow> XRefEntry list" where
  "getObjectStreamEntries xrefTable =
     filter (\<lambda>e. entryType e = InObjectStream) (m_entries xrefTable)"

datatype Token = IntegerToken int | OtherToken

record PDFVersion =
  major :: int
  minor :: int

record StorageEntry =
  entryGeneration :: int
  object :: PDFObject

type_synonym PDFObjects = "StorageEntry list"

definition StorageEntry_default :: StorageEntry where
  "StorageEntry_default = \<lparr>entryGeneration = 0, object = Null\<rparr>"

record PDFObjectStorage =
  m_objects :: PDFObjects
  m_trailer :: PDFObject
  m_securityHandler :: "PDFSecurityHandler option"

datatype PDFDocument = PDFDocument PDFObjectStorage

definition PDFDocument_default :: PDFDocument where
  "PDFDocument_default =
     PDFDocument \<lparr>m_objects = [], m_trailer = Null, m_securityHandler = None\<rparr>"

text \<open>
  What the reader calls and what it reads from headers that are not under \<open>src\<close> are
  parameters of the model, collected in one record: the format constants; \<open>fetch\<close> of a
  lexical analyzer set at a position of the buffer; the search for the header's regular
  expression in a window, which answers the first and the last character of the matched
  version; \<open>PDFVersion::isValid\<close>; \<open>PDFXRefTable::readXRefTable\<close>; the parser set at a
  position of a byte array, with \<open>getObject\<close> answering the object and the position after
  it and \<open>fetchCommand\<close> answering whether the command was there and the position after
  it (the parsing context and its object fetcher are inside these two parameters);
  \<open>PDFStreamFilterStorage::getDecodedStream\<close>; \<open>max_size()\<close> of the vector of pairs that
  \<open>processObjectStream\<close> reserves; and the default-constructed handler and crypt filter.
\<close>

record collaborators =
  PDF_END_OF_FILE_MARK :: QByteArray
  PDF_START_OF_XREF_MARK :: QByteArray
  PDF_FOOTER_SCAN_LIMIT :: int
  PDF_HEADER_SCAN_LIMIT :: int
  FIND_NOT_FOUND_RESULT :: int
  PDF_OBJECT_START_MARK :: string
  PDF_OBJECT_END_MARK :: string
  analyzer_fetch :: "QByteArray \<Rightarrow> int \<Rightarrow> PDFParserException + Token"
  headerSearch :: "QByteArray \<Rightarrow> (byte \<times> byte) option"
  versionIsValid :: "PDFVersion \<Rightarrow> bool"
  readXRefTable :: "QByteArray \<Rightarrow> int \<Rightarrow> PDFParserException + PDFXRefTable"
  parser_getObject :: "QByteArray \<Rightarrow> int \<Rightarrow> PDFParserException + PDFObject \<times> int"
  parser_fetchCommand :: "QByteArray \<Rightarrow> int \<Rightarrow> string \<Rightarrow> bool \<times> int"
  getDecodedStream :: "PDFDictionary \<Rightarrow> QByteArray \<Rightarrow> QByteArray"
  vector_max_size :: int
  defaultHandler :: PDFStandardSecurityHandler
  defaultFilter :: CryptFilter

record PDFDocumentReader =
  m_successfull :: bool
  m_errorMessage :: "PDFParserException option"
  m_version :: PDFVersion

subsection \<open>Footer, header and cross-reference table\<close>

text \<open>
  The first part of the \<open>try\<close> block of \<open>readFromBuffer\<close>, up to \<open>readXRefTable\<close>. An
  exception leaves with the state of the reader at the \<open>throw\<close>.
\<close>

definition readHeader ::
  "collaborators \<Rightarrow> PDFDocumentReader \<Rightarrow> QByteArray
     \<Rightarrow> PDFParserException \<times> PDFDocumentReader + PDFDocumentReader \<times> PDFXRefTable" where
  "readHeader env reader buffer =
     (if findFromEnd (FIND_NOT_FOUND_RESULT env) (PDF_END_OF_FILE_MARK env) buffer
           (PDF_FOOTER_SCAN_LIMIT env) = FIND_NOT_FOUND_RESULT env
      then Inl (EndOfFileMarkNotFound, reader)
      else
        let startXRefPosition =
              findFromEnd (FIND_NOT_FOUND_RESULT env) (PDF_START_OF_XREF_MARK env) buffer
                (PDF_FOOTER_SCAN_LIMIT env)
        in if startXRefPosition = FIND_NOT_FOUND_RESULT env
           then Inl (StartOfXRefNotFound, reader)
           else
             case analyzer_fetch env buffer
                    (startXRefPosition + int (length (PDF_START_OF_XREF_MARK env))) of
               Inl e \<Rightarrow> Inl (e, reader)
             | Inr OtherToken \<Rightarrow> Inl (StartOfXRefNotFound, reader)
             | Inr (IntegerToken firstXrefTableOffset) \<Rightarrow>
                 (case headerSearch env
                         (take (nat (min (int (length buffer)) (PDF_HEADER_SCAN_LIMIT env)))
                            buffer) of
                    None \<Rightarrow> Inl (HeaderNotFound, reader)
                  | Some (c1, c2) \<Rightarrow>
                      let reader =
                            reader\<lparr>m_version := \<lparr>major = uint c1 - 48, minor = uint c2 - 48\<rparr>\<rparr>
                      in if \<not> versionIsValid env (m_version reader)
                         then Inl (VersionNotValid, reader)
                         else
                           case readXRefTable env buffer firstXrefTableOffset of
                             Inl e \<Rightarrow> Inl (e, reader)
                           | Inr xrefTable \<Rightarrow> Inr (reader, xrefTable)))"

subsection \<open>Phase 5: the occupied entries\<close>

text \<open>The lambda \<open>getObject(context, offset, reference)\<close>.\<close>

definition getObject ::
  "collaborators \<Rightarrow> QByteArray \<Rightarrow> int \<Rightarrow> PDFObjectReference \<Rightarrow> PDFParserException + PDFObject" where
  "getObject env buffer offset' reference' =
     bindE (parser_getObject env buffer offset') (\<lambda>(objectNumber', pos).
     bindE (parser_getObject env buffer pos) (\<lambda>(generation', pos).
     case (asInt objectNumber', asInt generation') of
       (Some n, Some g) \<Rightarrow>
         (let (found, pos) = parser_fetchCommand env buffer pos (PDF_OBJECT_START_MARK env)
          in if \<not> found then Inl (CantReadObject offset')
             else
               bindE (parser_getObject env buffer pos) (\<lambda>(object', pos).
               let (found, pos) = parser_fetchCommand env buffer pos (PDF_OBJECT_END_MARK env)
               in if \<not> found then Inl (CantReadObject offset')
                  else
                    let scannedReference = \<lparr>objectNumber = n, generation = g\<rparr>
                    in if scannedReference \<noteq> reference' then Inl (CantReadObject offset')
                       else Inr object'))
     | _ \<Rightarrow> Inl (CantReadObject offset')))"

text \<open>
  A write into a slot of the object table. The source indexes the vector without a
  check; the object numbers of the entries of a cross-reference table index the table,
  whose size is the size of the vector, so an index out of range does not arise from a
  table that keeps this, and the model leaves the vector as it is there.
\<close>

definition in_range :: "PDFObjects \<Rightarrow> int \<Rightarrow> bool" where
  "in_range objects n \<longleftrightarrow> 0 \<le> n \<and> n < int (length objects)"

definition processEntry ::
  "collaborators \<Rightarrow> QByteArray \<Rightarrow> XRefEntry \<Rightarrow> PDFDocumentReader \<times> PDFObjects
     \<Rightarrow> PDFDocumentReader \<times> PDFObjects" where
  "processEntry env buffer entry = (\<lambda>(reader, objects).
     if m_successfull reader then
       case getObject env buffer (offset entry) (reference entry) of
         Inr object' \<Rightarrow>
           (reader,
            if in_range objects (objectNumber (reference entry))
            then objects[nat (objectNumber (reference entry)) :=
                   \<lparr>entryGeneration = generation (reference entry), object = object'\<rparr>]
            else objects)
       | Inl exception \<Rightarrow>
           (reader\<lparr>m_successfull := False, m_errorMessage := Some exception\<rparr>, objects)
     else (reader, objects))"

text \<open>
  \<open>std::for_each\<close> with the parallel policy over the occupied entries, in the schedule
  that runs the tasks one after the other in the order of the vector.
\<close>

definition processEntries ::
  "collaborators \<Rightarrow> QByteArray \<Rightarrow> PDFXRefTable \<Rightarrow> PDFDocumentReader
     \<Rightarrow> PDFDocumentReader \<times> PDFObjects" where
  "processEntries env buffer xrefTable reader =
     fold (processEntry env buffer) (getOccupiedEntries xrefTable)
       (reader, replicate (getSize xrefTable) StorageEntry_default)"

subsection \<open>The security handler of the document\<close>

text \<open>
  Modelled from the spec: \<open>authenticate\<close> of the handler \<open>None\<close>, which is declared in the
  header, authorizes at once.
\<close>

definition trailerDictionaryOf :: "PDFObject \<Rightarrow> PDFDictionary option" where
  "trailerDictionaryOf trailerDictionaryObject =
     (case trailerDictionaryObject of
        Dictionary d \<Rightarrow> Some d
      | Stream d content \<Rightarrow> Some d
      | _ \<Rightarrow> None)"

definition documentId :: "PDFDictionary \<Rightarrow> QByteArray" where
  "documentId trailerDictionary =
     (case dict_get trailerDictionary ''ID'' of
        Array (String id' # items) \<Rightarrow> id'
      | _ \<Rightarrow> [])"

definition resolveEncrypt :: "PDFDictionary \<Rightarrow> PDFObjects \<Rightarrow> PDFObject" where
  "resolveEncrypt trailerDictionary objects =
     (case dict_get trailerDictionary ''Encrypt'' of
        Reference n g \<Rightarrow>
          if in_range objects n \<and> entryGeneration (objects ! nat n) = g
          then object (objects ! nat n)
          else Reference n g
      | encryptObject \<Rightarrow> encryptObject)"

definition readSecurityHandler ::
  "nat \<Rightarrow> collaborators \<Rightarrow> library \<Rightarrow> (nat \<Rightarrow> string \<times> bool) \<Rightarrow> PDFXRefTable \<Rightarrow> PDFObjects
     \<Rightarrow> (PDFParserException + PDFSecurityHandler) option" where
  "readSecurityHandler fuel env lib getPasswordCallback xrefTable objects =
     (case trailerDictionaryOf (m_trailerDictionary xrefTable) of
        None \<Rightarrow> Some (Inl InvalidTrailerDictionary)
      | Some trailerDictionary \<Rightarrow>
          let id' = documentId trailerDictionary;
              encryptObject = resolveEncrypt trailerDictionary objects
          in case createSecurityHandler (defaultHandler env) (defaultFilter env)
                    encryptObject id' of
               Inl e \<Rightarrow> Some (Inl e)
             | Inr PDFNoneSecurityHandler \<Rightarrow> Some (Inr PDFNoneSecurityHandler)
             | Inr (Standard h) \<Rightarrow>
                 (case authenticate fuel lib getPasswordCallback h of
                    None \<Rightarrow> None
                  | Some (Inl e) \<Rightarrow> Some (Inl e)
                  | Some (Inr (authorizationResult', h', calls)) \<Rightarrow>
                      if authorizationResult' = Failed \<or> authorizationResult' = Cancelled
                      then Some (Inl AuthorizationFailed)
                      else Some (Inr (Standard h'))))"

subsection \<open>Phase 9: the object streams\<close>

text \<open>
  An exception of the standard library. It is not a \<open>PDFParserException\<close>, so neither the
  handler of a task nor the handler of \<open>readFromBuffer\<close> catches it: where it is thrown,
  the task and \<open>readFromBuffer\<close> are left without a result.
\<close>

datatype std_exception = length_error

text \<open>
  \<open>objectNumberAndOffset.reserve(n)\<close> on the empty vector: it throws \<open>std::length_error\<close>
  when the count, converted to \<open>size_t\<close>, is above \<open>max_size()\<close>, which every negative
  \<open>n\<close> is. The memory of the model is not bounded otherwise.
\<close>

definition reserve :: "collaborators \<Rightarrow> int \<Rightarrow> std_exception + unit" where
  "reserve env n = (if n < 0 \<or> vector_max_size env < n then Inl length_error else Inr ())"

text \<open>
  The first loop of \<open>processObjectStream\<close> reads \<open>n\<close> pairs of integers from the start of
  the decoded data; \<open>count\<close> is how many are still to read.
\<close>

fun readObjectNumbersAndOffsets ::
  "collaborators \<Rightarrow> QByteArray \<Rightarrow> int \<Rightarrow> int \<Rightarrow> nat \<Rightarrow> int
     \<Rightarrow> PDFParserException + (int \<times> int) list" where
  "readObjectNumbersAndOffsets env objectStreamData streamNumber first 0 pos = Inr []"
| "readObjectNumbersAndOffsets env objectStreamData streamNumber first (Suc count) pos =
     bindE (parser_getObject env objectStreamData pos) (\<lambda>(currentObjectNumber, pos).
     bindE (parser_getObject env objectStreamData pos) (\<lambda>(currentOffset, pos).
     case (asInt currentObjectNumber, asInt currentOffset) of
       (Some objectNumber', Some offset') \<Rightarrow>
         bindE (readObjectNumbersAndOffsets env objectStreamData streamNumber first count pos)
           (\<lambda>rest. Inr ((objectNumber', offset' + first) # rest))
     | _ \<Rightarrow> Inl (ObjectStreamInvalid streamNumber)))"

text \<open>
  The predicate of \<open>std::find_if\<close> over the entries that the cross-reference table places
  in object streams.
\<close>

definition declared :: "XRefEntry list \<Rightarrow> PDFObjectReference \<Rightarrow> int \<Rightarrow> bool" where
  "declared objectStreamEntries objectStreamReference objectNumber' \<longleftrightarrow>
     list_ex (\<lambda>entry. objectNumber (reference entry) = objectNumber'
                      \<and> objectStream entry = objectStreamReference) objectStreamEntries"

text \<open>
  The second loop of \<open>processObjectStream\<close>, over the pairs: it writes into the shared
  table as it goes, so it answers the table as it stands and the exception, if there is
  one.
\<close>

fun storeObjects ::
  "collaborators \<Rightarrow> QByteArray \<Rightarrow> XRefEntry list \<Rightarrow> PDFObjectReference \<Rightarrow> (int \<times> int) list
     \<Rightarrow> PDFObjects \<Rightarrow> PDFObjects \<times> PDFParserException option" where
  "storeObjects env objectStreamData objectStreamEntries objectStreamReference [] objects =
     (objects, None)"
| "storeObjects env objectStreamData objectStreamEntries objectStreamReference
     ((objectNumber', offset') # rest) objects =
     (case parser_getObject env objectStreamData offset' of
        Inl e \<Rightarrow> (objects, Some e)
      | Inr (object', pos) \<Rightarrow>
          if declared objectStreamEntries objectStreamReference objectNumber'
          then storeObjects env objectStreamData objectStreamEntries objectStreamReference rest
                 (if in_range objects objectNumber'
                  then objects[nat objectNumber' :=
                         (objects ! nat objectNumber')\<lparr>object := object'\<rparr>]
                  else objects)
          else (objects, Some (ObjectStreamInvalid (objectNumber objectStreamReference))))"

text \<open>
  The \<open>try\<close> block of \<open>processObjectStream\<close>: the table as the task leaves it and the
  parser's exception, if one was thrown, or the exception of \<open>reserve\<close>, which leaves
  the task before it has written anything. The source compares the container's number
  with the size of the table only from above; a negative number indexes the vector out
  of bounds there and is outside the model.
\<close>

definition objectStreamTask ::
  "collaborators \<Rightarrow> XRefEntry list \<Rightarrow> PDFObjectReference \<Rightarrow> PDFObjects
     \<Rightarrow> std_exception + PDFObjects \<times> PDFParserException option" where
  "objectStreamTask env objectStreamEntries objectStreamReference objects =
     (let streamNumber = objectNumber objectStreamReference in
      if streamNumber \<ge> int (length objects)
      then Inr (objects, Some (ObjectStreamNotFound streamNumber))
      else
        case object (objects ! nat streamNumber) of
          Stream objectStreamDictionary content \<Rightarrow>
            if asName (dict_get objectStreamDictionary ''Type'') \<noteq> Some ''ObjStm''
            then Inr (objects, Some (ObjectStreamInvalid streamNumber))
            else
              (case (asInt (dict_get objectStreamDictionary ''N''),
                     asInt (dict_get objectStreamDictionary ''First'')) of
                 (Some n, Some first) \<Rightarrow>
                   let objectStreamData = getDecodedStream env objectStreamDictionary content
                   in bindE (reserve env n) (\<lambda>reserved.
                      case readObjectNumbersAndOffsets env objectStreamData streamNumber
                             first (nat n) 0 of
                        Inl e \<Rightarrow> Inr (objects, Some e)
                      | Inr objectNumberAndOffset \<Rightarrow>
                          Inr (storeObjects env objectStreamData objectStreamEntries
                                 objectStreamReference objectNumberAndOffset objects))
               | _ \<Rightarrow> Inr (objects, Some (ObjectStreamInvalid streamNumber)))
        | _ \<Rightarrow> Inr (objects, Some (ObjectStreamInvalid streamNumber)))"

text \<open>
  The lambda \<open>processObjectStream\<close>: its handler records a \<open>PDFParserException\<close>; any
  other exception leaves the lambda.
\<close>

definition processObjectStream ::
  "collaborators \<Rightarrow> XRefEntry list \<Rightarrow> PDFObjectReference \<Rightarrow> PDFDocumentReader \<times> PDFObjects
     \<Rightarrow> std_exception + PDFDocumentReader \<times> PDFObjects" where
  "processObjectStream env objectStreamEntries objectStreamReference = (\<lambda>(reader, objects).
     if \<not> m_successfull reader then Inr (reader, objects)
     else
       bindE (objectStreamTask env objectStreamEntries objectStreamReference objects)
         (\<lambda>(objects, thrown).
            case thrown of
              None \<Rightarrow> Inr (reader, objects)
            | Some exception \<Rightarrow>
                Inr (reader\<lparr>m_successfull := False, m_errorMessage := Some exception\<rparr>,
                     objects)))"

text \<open>
  \<open>std::for_each\<close> over a range with a task that may be left by an exception: the tasks
  run one after the other, and the first exception that leaves a task ends the run.
\<close>

fun for_each :: "('a \<Rightarrow> 's \<Rightarrow> 'e + 's) \<Rightarrow> 'a list \<Rightarrow> 's \<Rightarrow> 'e + 's" where
  "for_each f [] s = Inr s"
| "for_each f (x # xs) s = bindE (f x s) (for_each f xs)"

text \<open>
  The set of the containers and the parallel \<open>std::for_each\<close> over it, in the schedule
  that runs the tasks one after the other, each container once.
\<close>

definition processObjectStreams ::
  "collaborators \<Rightarrow> PDFXRefTable \<Rightarrow> PDFDocumentReader \<times> PDFObjects
     \<Rightarrow> std_exception + PDFDocumentReader \<times> PDFObjects" where
  "processObjectStreams env xrefTable =
     (let objectStreamEntries = getObjectStreamEntries xrefTable;
          objectStreams = remdups (map objectStream objectStreamEntries)
      in for_each (processObjectStream env objectStreamEntries) objectStreams)"

subsection \<open>readFromBuffer\<close>

text \<open>
  The whole function: the \<open>try\<close> block and the \<open>catch\<close> that records the exception and
  returns the default document. \<open>None\<close> says that the fuel of \<open>authenticate\<close> ran out;
  \<open>Inl\<close> is the exception that left a task of phase 9 and that the \<open>catch\<close> does not
  handle, so that the function returns no document.
\<close>

definition readFromBuffer ::
  "nat \<Rightarrow> collaborators \<Rightarrow> library \<Rightarrow> (nat \<Rightarrow> string \<times> bool) \<Rightarrow> PDFDocumentReader \<Rightarrow> QByteArray
     \<Rightarrow> (std_exception + PDFDocument \<times> PDFDocumentReader) option" where
  "readFromBuffer fuel env lib getPasswordCallback reader buffer =
     (case readHeader env reader buffer of
        Inl (parserException, reader) \<Rightarrow>
          Some (Inr (PDFDocument_default,
                     reader\<lparr>m_successfull := False, m_errorMessage := Some parserException\<rparr>))
      | Inr (reader, xrefTable) \<Rightarrow>
          let (reader, objects) = processEntries env buffer xrefTable reader
          in case readSecurityHandler fuel env lib getPasswordCallback xrefTable objects of
               None \<Rightarrow> None
             | Some (Inl parserException) \<Rightarrow>
                 Some (Inr (PDFDocument_default,
                            reader\<lparr>m_successfull := False,
                                   m_errorMessage := Some parserException\<rparr>))
             | Some (Inr securityHandler) \<Rightarrow>
                 (case processObjectStreams env xrefTable (reader, objects) of
                    Inl thrown \<Rightarrow> Some (Inl thrown)
                  | Inr (reader, objects) \<Rightarrow>
                      Some (Inr (PDFDocument
                                   \<lparr>m_objects = objects,
                                    m_trailer = m_trailerDictionary xrefTable,
                                    m_securityHandler = Some securityHandler\<rparr>,
                                 reader))))"

section \<open>The specification's wording\<close>

text \<open>
  The key derivation as the specification words it: the password padded or truncated to
  32 bytes with the padding constant, the digest of the concatenation, its first
  \<open>keyLengthBits / 8\<close> bytes, and for revision 3 and later 50 times the same-length
  prefix of the digest of the current key bytes.
\<close>

definition pad_or_truncate32 :: "QByteArray \<Rightarrow> byte list" where
  "pad_or_truncate32 password = take 32 (password @ PDFPasswordPadding)"

text \<open>A 32-bit value as four little-endian bytes: byte \<open>i\<close> is digit \<open>i\<close> in base 256.\<close>

definition le4_spec :: "32 word \<Rightarrow> byte list" where
  "le4_spec w = map (\<lambda>i. of_nat (unat w div 256 ^ i mod 256)) [0..<4]"

definition deriveFileKey_spec ::
  "library \<Rightarrow> PDFStandardSecurityHandler \<Rightarrow> QByteArray \<Rightarrow> QByteArray" where
  "deriveFileKey_spec lib h password =
     (let n = nat (m_keyLength h div 8);
          digest = md5 lib (pad_or_truncate32 password @ m_O h @ le4_spec (m_permissions h)
                     @ m_ID h @ (if m_encryptMetadata h then [] else [0xFF, 0xFF, 0xFF, 0xFF]));
          key = take n digest
      in if m_R h \<ge> 3 then ((\<lambda>key. take n (md5 lib key)) ^^ 50) key else key)"


section \<open>Concrete inputs\<close>

text \<open>
  A stand-in library for concrete inputs. Its functions have the sizes of the real ones
  and are simple enough to compute with; they are not the real algorithms.
\<close>

definition toy_digest :: "nat \<Rightarrow> QByteArray \<Rightarrow> QByteArray" where
  "toy_digest n x = take n (x @ replicate n 0)"

definition toy_cipher :: "QByteArray \<Rightarrow> QByteArray \<Rightarrow> QByteArray" where
  "toy_cipher key x = map (\<lambda>b. b XOR of_nat (length key)) x"

definition toy_library :: library where
  "toy_library =
     \<lparr>md5 = toy_digest 16,
      rc4 = toy_cipher,
      sha256 = (\<lambda>x. replicate 32 0),
      sha384 = (\<lambda>x. replicate 48 0),
      sha512 = (\<lambda>x. replicate 64 0),
      aes_cbc_encrypt = (\<lambda>key iv x. toy_cipher key x),
      aes_cbc_decrypt = (\<lambda>key iv x. toy_cipher key x),
      toUtf8 = map of_char\<rparr>"

text \<open>A default-constructed filter and handler for concrete inputs.\<close>

definition filter0_example :: CryptFilter where
  "filter0_example = \<lparr>type = None', authEvent = DocOpen\<rparr>"

definition handler0_example :: PDFStandardSecurityHandler where
  "handler0_example =
     \<lparr>m_V = 0, m_keyLength = 40, m_R = 0, m_O = [], m_U = [], m_OE = [], m_UE = [],
      m_Perms = [], m_permissions = 0, m_encryptMetadata = True, m_ID = [],
      m_cryptFilters = Map.empty,
      m_filterStreams = filter0_example, m_filterStrings = filter0_example,
      m_filterEmbeddedFiles = filter0_example,
      m_authorizationData = AuthorizationData_default\<rparr>"

text \<open>
  An encryption dictionary with \<open>V = 2\<close>, \<open>Length = 256\<close> and \<open>R = 3\<close>, and the handler
  that \<open>createSecurityHandler\<close> builds from it.
\<close>

definition encrypt_long_key :: PDFObject where
  "encrypt_long_key =
     Dictionary
       [(''Filter'', Name ''Standard''), (''V'', Integer 2), (''Length'', Integer 256),
        (''R'', Integer 3), (''O'', String (replicate 32 0)), (''U'', String (replicate 32 0)),
        (''P'', Integer (- 4))]"

definition handler_long_key :: PDFStandardSecurityHandler where
  "handler_long_key =
     handler0_example
       \<lparr>m_V := 2, m_keyLength := 256, m_R := 3, m_O := replicate 32 0, m_U := replicate 32 0,
        m_permissions := word_of_int (- 4),
        m_cryptFilters := [''Identity'' \<mapsto> \<lparr>type = Identity, authEvent = DocOpen\<rparr>]\<rparr>"

text \<open>A revision 3 handler with a 40-bit key.\<close>

definition handler_r3 :: PDFStandardSecurityHandler where
  "handler_r3 =
     handler0_example
       \<lparr>m_V := 2, m_keyLength := 40, m_R := 3, m_O := replicate 32 7,
        m_U := replicate 32 9, m_permissions := word_of_int (- 4), m_ID := [1, 2, 3, 4]\<rparr>"

text \<open>
  A handler with the unsupported revision 7, and a provider that answers \<open>pw\<close> once
  and then declines.
\<close>

definition handler_r7 :: PDFStandardSecurityHandler where
  "handler_r7 = handler0_example\<lparr>m_R := 7\<rparr>"

definition provider_once :: "nat \<Rightarrow> string \<times> bool" where
  "provider_once n = (''pw'', n < 1)"

text \<open>
  A revision 6 handler whose \<open>O\<close> starts with 32 bytes of 1 and whose \<open>U\<close> starts with 32
  bytes of 0, with different entries \<open>OE\<close> and \<open>UE\<close>.
\<close>

definition handler_r6 :: PDFStandardSecurityHandler where
  "handler_r6 =
     handler0_example
       \<lparr>m_V := 5, m_keyLength := 256, m_R := 6,
        m_O := replicate 32 1 @ replicate 16 3, m_U := replicate 32 0 @ replicate 16 4,
        m_OE := replicate 32 5, m_UE := replicate 32 6, m_Perms := replicate 16 0\<rparr>"

text \<open>
  Two encryption dictionaries with \<open>V = 4\<close> and one crypt filter \<open>StdCF\<close> for streams
  and strings, the first without \<open>EFF\<close>, the second with \<open>EFF\<close> naming \<open>Identity\<close>, and
  the handlers built from them.
\<close>

definition encrypt_v4 :: PDFDictionary where
  "encrypt_v4 =
     [(''Filter'', Name ''Standard''), (''V'', Integer 4), (''R'', Integer 4),
      (''CF'', Dictionary [(''StdCF'', Dictionary [(''CFM'', Name ''AESV2'')])]),
      (''StmF'', Name ''StdCF''), (''StrF'', Name ''StdCF''),
      (''O'', String (replicate 32 0)), (''U'', String (replicate 32 0)),
      (''P'', Integer (- 4))]"

definition filters_v4 :: "string \<rightharpoonup> CryptFilter" where
  "filters_v4 =
     [''Identity'' \<mapsto> \<lparr>type = Identity, authEvent = DocOpen\<rparr>,
      ''StdCF'' \<mapsto> \<lparr>type = AESV2, authEvent = DocOpen\<rparr>]"

definition handler_v4 :: PDFStandardSecurityHandler where
  "handler_v4 =
     handler0_example
       \<lparr>m_V := 4, m_keyLength := 128, m_R := 4, m_O := replicate 32 0, m_U := replicate 32 0,
        m_permissions := word_of_int (- 4), m_cryptFilters := filters_v4,
        m_filterStreams := \<lparr>type = AESV2, authEvent = DocOpen\<rparr>,
        m_filterStrings := \<lparr>type = AESV2, authEvent = DocOpen\<rparr>,
        m_filterEmbeddedFiles := \<lparr>type = AESV2, authEvent = DocOpen\<rparr>\<rparr>"

definition handler_v4_eff :: PDFStandardSecurityHandler where
  "handler_v4_eff =
     handler_v4\<lparr>m_filterEmbeddedFiles := \<lparr>type = Identity, authEvent = DocOpen\<rparr>\<rparr>"

text \<open>
  Stand-ins for the collaborators, for concrete inputs: a format in miniature in which
  every byte is an integer object and a command is its text, a version that is the two
  digits after \<open>%PDF-\<close>, streams that need no decoding, and a cross-reference reader
  that answers the table it is given.
\<close>

definition ascii :: "string \<Rightarrow> QByteArray" where
  "ascii text = map of_char text"

definition toy_getObject :: "QByteArray \<Rightarrow> int \<Rightarrow> PDFParserException + PDFObject \<times> int" where
  "toy_getObject data pos =
     (if 0 \<le> pos \<and> pos < int (length data)
      then Inr (Integer (uint (data ! nat pos)), pos + 1)
      else Inl (Other ''end of data''))"

definition toy_fetchCommand :: "QByteArray \<Rightarrow> int \<Rightarrow> string \<Rightarrow> bool \<times> int" where
  "toy_fetchCommand data pos command =
     (if 0 \<le> pos \<and> take (length command) (drop (nat pos) data) = ascii command
      then (True, pos + int (length command))
      else (False, pos))"

definition toy_fetch :: "QByteArray \<Rightarrow> int \<Rightarrow> PDFParserException + Token" where
  "toy_fetch data pos =
     (if 0 \<le> pos \<and> pos < int (length data)
      then Inr (IntegerToken (uint (data ! nat pos)))
      else Inr OtherToken)"

definition toy_headerSearch :: "QByteArray \<Rightarrow> (byte \<times> byte) option" where
  "toy_headerSearch window =
     (if take 5 window = ascii ''%PDF-'' \<and> 8 \<le> length window
      then Some (window ! 5, window ! 7)
      else None)"

definition toy_collaborators :: "PDFXRefTable \<Rightarrow> collaborators" where
  "toy_collaborators xrefTable =
     \<lparr>PDF_END_OF_FILE_MARK = ascii ''%%EOF'',
      PDF_START_OF_XREF_MARK = ascii ''startxref'',
      PDF_FOOTER_SCAN_LIMIT = 1024,
      PDF_HEADER_SCAN_LIMIT = 1024,
      FIND_NOT_FOUND_RESULT = - 1,
      PDF_OBJECT_START_MARK = ''obj'',
      PDF_OBJECT_END_MARK = ''endobj'',
      analyzer_fetch = toy_fetch,
      headerSearch = toy_headerSearch,
      versionIsValid = (\<lambda>v. 1 \<le> major v \<and> major v \<le> 2),
      readXRefTable = (\<lambda>buffer firstXrefTableOffset. Inr xrefTable),
      parser_getObject = toy_getObject,
      parser_fetchCommand = toy_fetchCommand,
      getDecodedStream = (\<lambda>dictionary content. content),
      vector_max_size = 576460752303423487,
      defaultHandler = handler0_example,
      defaultFilter = filter0_example\<rparr>"




definition reader_fresh :: PDFDocumentReader where
  "reader_fresh =
     \<lparr>m_successfull = True, m_errorMessage = None, m_version = \<lparr>major = 0, minor = 0\<rparr>\<rparr>"


text \<open>
  A file in the miniature format: the header \<open>%PDF-1.7\<close>, at offset 8 the object
  \<open>1 0 obj 42 endobj\<close>, at offset 20 the object \<open>9 0 obj 7 endobj\<close>, then
  \<open>startxref\<close>, one byte for the offset of the table and \<open>%%EOF\<close>. Its cross-reference
  table has a free entry 0 and occupied entries for object 1 at offset 8 and object 2 at
  offset 20, where the header found is that of object 9; the trailer has no \<open>Encrypt\<close>
  entry.
\<close>

definition buffer_mismatch :: QByteArray where
  "buffer_mismatch =
     ascii ''%PDF-1.7'' @ [1, 0] @ ascii ''obj'' @ [42] @ ascii ''endobj''
       @ [9, 0] @ ascii ''obj'' @ [7] @ ascii ''endobj''
       @ ascii ''startxref'' @ [50] @ ascii ''%%EOF''"

definition table_mismatch :: PDFXRefTable where
  "table_mismatch =
     \<lparr>m_entries =
        [\<lparr>entryType = Free, reference = \<lparr>objectNumber = 0, generation = 65535\<rparr>, offset = 0,
          objectStream = \<lparr>objectNumber = 0, generation = 0\<rparr>, objectStreamIndex = 0\<rparr>,
         \<lparr>entryType = Occupied, reference = \<lparr>objectNumber = 1, generation = 0\<rparr>, offset = 8,
          objectStream = \<lparr>objectNumber = 0, generation = 0\<rparr>, objectStreamIndex = 0\<rparr>,
         \<lparr>entryType = Occupied, reference = \<lparr>objectNumber = 2, generation = 0\<rparr>, offset = 20,
          objectStream = \<lparr>objectNumber = 0, generation = 0\<rparr>, objectStreamIndex = 0\<rparr>],
      m_trailerDictionary = Dictionary [(''Size'', Integer 3)]\<rparr>"

definition reader_failed :: PDFDocumentReader where
  "reader_failed =
     \<lparr>m_successfull = False, m_errorMessage = Some (CantReadObject 20),
      m_version = \<lparr>major = 1, minor = 7\<rparr>\<rparr>"

definition objects_partial :: PDFObjects where
  "objects_partial =
     [StorageEntry_default, \<lparr>entryGeneration = 0, object = Integer 42\<rparr>, StorageEntry_default]"

section \<open>Proofs: findFromEnd\<close>

lemma take_eq_length: "take (length pat) ys = pat \<Longrightarrow> length pat \<le> length ys"
proof -
  assume "take (length pat) ys = pat"
  then have "length pat = min (length ys) (length pat)"
    by (metis length_take)
  then show ?thesis by linarith
qed

lemma occurs_at_Cons_Suc: "occurs_at pat (x # xs) (Suc j) \<longleftrightarrow> occurs_at pat xs j"
  by (simp add: occurs_at_def)

lemma occurs_at_0: "occurs_at pat ys 0 \<longleftrightarrow> take (length pat) ys = pat"
  by (auto simp: occurs_at_def dest: take_eq_length)

lemma last_match_None:
  "last_match pat xs = None \<Longrightarrow> pat \<noteq> [] \<Longrightarrow> \<not> occurs_at pat xs j"
proof (induction xs arbitrary: j)
  case Nil
  then show ?case by (simp add: occurs_at_def)
next
  case (Cons x xs)
  from Cons.prems have n: "last_match pat xs = None"
    and t: "take (length pat) (x # xs) \<noteq> pat"
    by (auto split: option.splits if_splits)
  show ?case
  proof (cases j)
    case 0
    with t show ?thesis by (simp add: occurs_at_0)
  next
    case (Suc k)
    with Cons.IH [OF n Cons.prems(2)] show ?thesis
      by (simp add: occurs_at_Cons_Suc)
  qed
qed

lemma last_match_Some:
  "last_match pat xs = Some i \<Longrightarrow>
     pat \<noteq> [] \<and> occurs_at pat xs i \<and> (\<forall>j. occurs_at pat xs j \<longrightarrow> j \<le> i)"
proof (induction xs arbitrary: i)
  case Nil
  then show ?case by simp
next
  case (Cons x xs)
  show ?case
  proof (cases "last_match pat xs")
    case None
    with Cons.prems have i: "i = 0" and p: "pat \<noteq> []" and t: "take (length pat) (x # xs) = pat"
      by (auto split: if_splits)
    have "j \<le> 0" if "occurs_at pat (x # xs) j" for j
    proof (cases j)
      case 0
      then show ?thesis by simp
    next
      case (Suc k)
      with that last_match_None [OF None p, of k] show ?thesis
        by (simp add: occurs_at_Cons_Suc)
    qed
    with i p t show ?thesis by (simp add: occurs_at_0)
  next
    case (Some k)
    with Cons.prems have i: "i = Suc k" by simp
    from Cons.IH [OF Some] have p: "pat \<noteq> []" and o: "occurs_at pat xs k"
      and m: "\<And>j. occurs_at pat xs j \<Longrightarrow> j \<le> k" by auto
    have "j \<le> Suc k" if "occurs_at pat (x # xs) j" for j
    proof (cases j)
      case 0
      then show ?thesis by simp
    next
      case (Suc l)
      with that m [of l] show ?thesis by (simp add: occurs_at_Cons_Suc)
    qed
    with i p o show ?thesis by (simp add: occurs_at_Cons_Suc)
  qed
qed

lemma last_match_empty: "last_match [] xs = None"
  by (induction xs) auto

lemma occurs_at_drop:
  "k \<le> length s \<Longrightarrow> occurs_at pat (drop k s) i \<longleftrightarrow> occurs_at pat s (k + i)"
  by (auto simp: occurs_at_def add.commute)

lemma find_end_found:
  assumes "first1 \<le> length s" and "find_end s first1 (length s) pat \<noteq> length s"
  shows "pat \<noteq> [] \<and> first1 \<le> find_end s first1 (length s) pat
     \<and> occurs_at pat s (find_end s first1 (length s) pat)
     \<and> (\<forall>j. first1 \<le> j \<and> occurs_at pat s j \<longrightarrow> j \<le> find_end s first1 (length s) pat)"
proof -
  from assms obtain i where i: "last_match pat (drop first1 s) = Some i"
    and f: "find_end s first1 (length s) pat = first1 + i"
    by (auto simp: find_end_def split: option.splits)
  from last_match_Some [OF i] have p: "pat \<noteq> []" and o: "occurs_at pat (drop first1 s) i"
    and m: "\<And>j. occurs_at pat (drop first1 s) j \<Longrightarrow> j \<le> i" by auto
  have "j \<le> first1 + i" if "first1 \<le> j" "occurs_at pat s j" for j
    using m [of "j - first1"] that assms(1) by (simp add: occurs_at_drop)
  with p o f assms(1) show ?thesis by (simp add: occurs_at_drop)
qed

lemma find_end_not_found:
  assumes "first1 \<le> length s" and "find_end s first1 (length s) pat = length s"
    and "pat \<noteq> []" and "first1 \<le> j"
  shows "\<not> occurs_at pat s j"
proof (cases "last_match pat (drop first1 s)")
  case None
  from last_match_None [OF None assms(3), of "j - first1"] assms(1,4)
  show ?thesis by (simp add: occurs_at_drop)
next
  case (Some i)
  with assms(2) have "first1 + i = length s" by (simp add: find_end_def)
  moreover from last_match_Some [OF Some] have "occurs_at pat (drop first1 s) i" by simp
  ultimately show ?thesis using assms(1,3)
    by (auto simp: occurs_at_drop occurs_at_def)
qed

lemma window_start_le: "window_start byteArray limit \<le> length byteArray"
  by (simp add: window_start_def)

lemma findFromEnd_unfold:
  assumes "0 < limit" "byteArray \<noteq> []"
    "int (length what) \<le> min (int (length byteArray)) limit"
  shows "findFromEnd nf what byteArray limit =
     (if find_end byteArray (window_start byteArray limit) (length byteArray) what
           \<noteq> length byteArray
      then int (find_end byteArray (window_start byteArray limit) (length byteArray) what)
      else nf)"
proof -
  have h: "nat (int (length byteArray) - min (int (length byteArray)) limit)
      = window_start byteArray limit"
    using assms(1) unfolding window_start_def by linarith
  have a: "\<not> min (int (length byteArray)) limit < int (length what)"
    using assms(3) by linarith
  show ?thesis
    unfolding findFromEnd_def Let_def by (simp only: assms(2) a h if_False)
qed

lemma findFromEnd_early:
  "byteArray = [] \<or> min (int (length byteArray)) limit < int (length what)
   \<Longrightarrow> findFromEnd nf what byteArray limit = nf"
  by (auto simp: findFromEnd_def Let_def)

lemma findFromEnd_result:
  assumes "0 < limit"
  shows "findFromEnd nf what byteArray limit = nf \<or>
     (\<exists>i. findFromEnd nf what byteArray limit = int i \<and>
          last_in_window what byteArray (window_start byteArray limit) i)"
proof (cases "byteArray = [] \<or> min (int (length byteArray)) limit < int (length what)")
  case True
  then show ?thesis by (simp only: findFromEnd_early simp_thms)
next
  case False
  then have ne: "byteArray \<noteq> []"
    and fit: "int (length what) \<le> min (int (length byteArray)) limit"
    by linarith+
  let ?it = "find_end byteArray (window_start byteArray limit) (length byteArray) what"
  note u = findFromEnd_unfold [OF assms ne fit, of nf]
  show ?thesis
  proof (cases "?it = length byteArray")
    case True
    with u show ?thesis by simp
  next
    case False
    from find_end_found [OF window_start_le False]
    have "last_in_window what byteArray (window_start byteArray limit) ?it"
      by (simp add: last_in_window_def)
    with u False show ?thesis by simp
  qed
qed

lemma findFromEnd_complete:
  assumes "0 < limit" "what \<noteq> []"
    "window_start byteArray limit \<le> j" "occurs_at what byteArray j"
  shows "\<exists>i. findFromEnd nf what byteArray limit = int i \<and>
          last_in_window what byteArray (window_start byteArray limit) i"
proof -
  have ne: "byteArray \<noteq> []"
    using assms(2,4) by (auto simp: occurs_at_def)
  have "j + length what \<le> length byteArray"
    using assms(4) by (simp add: occurs_at_def)
  with assms(1,3) have fit: "int (length what) \<le> min (int (length byteArray)) limit"
    unfolding window_start_def by linarith
  let ?it = "find_end byteArray (window_start byteArray limit) (length byteArray) what"
  have f: "?it \<noteq> length byteArray"
    using find_end_not_found [OF window_start_le _ assms(2,3)] assms(4) by blast
  from find_end_found [OF window_start_le f]
  have "last_in_window what byteArray (window_start byteArray limit) ?it"
    by (simp add: last_in_window_def)
  with f findFromEnd_unfold [OF assms(1) ne fit, of nf] show ?thesis
    by simp
qed

lemma findFromEnd_append:
  assumes "0 < limit" "limit \<le> int (length win)"
  shows "findFromEnd nf what (pre @ win) limit =
     (if limit < int (length what) then nf
      else case last_match what (drop (length win - nat limit) win) of
             None \<Rightarrow> nf
           | Some i \<Rightarrow> int (length pre + (length win - nat limit) + i))"
proof (cases "limit < int (length what)")
  case True
  with assms have "min (int (length (pre @ win))) limit < int (length what)"
    by simp
  then have "findFromEnd nf what (pre @ win) limit = nf"
    by (rule findFromEnd_early [OF disjI2])
  with True show ?thesis by simp
next
  case False
  have ne: "pre @ win \<noteq> []"
    using assms by auto
  have m: "min (int (length (pre @ win))) limit = limit"
    using assms by simp
  have fit: "int (length what) \<le> min (int (length (pre @ win))) limit"
    using False m by linarith
  have ws: "window_start (pre @ win) limit = length pre + (length win - nat limit)"
    unfolding window_start_def m using assms by simp
  have d: "take (length (pre @ win) - window_start (pre @ win) limit)
             (drop (window_start (pre @ win) limit) (pre @ win))
           = drop (length win - nat limit) win"
    unfolding ws by simp
  have fe: "find_end (pre @ win) (window_start (pre @ win) limit) (length (pre @ win)) what =
     (case last_match what (drop (length win - nat limit) win) of
        None \<Rightarrow> length (pre @ win)
      | Some i \<Rightarrow> window_start (pre @ win) limit + i)"
    unfolding find_end_def by (simp only: d)
  note u = findFromEnd_unfold [OF assms(1) ne fit, of nf, unfolded fe]
  show ?thesis
  proof (cases "last_match what (drop (length win - nat limit) win)")
    case None
    with False show ?thesis
      unfolding u by simp
  next
    case (Some i)
    from last_match_Some [OF Some] have "0 < length what"
      and "i + length what \<le> length win - (length win - nat limit)"
      by (simp_all add: occurs_at_def)
    then have "(length win - nat limit) + i < length win"
      by linarith
    with Some False show ?thesis
      unfolding u ws by simp
  qed
qed

lemma findFromEnd_prefix_irrelevant:
  assumes "0 < limit" "limit \<le> int (length win)" "length pre = length pre'"
  shows "findFromEnd nf what (pre @ win) limit = findFromEnd nf what (pre' @ win) limit"
  by (simp only: findFromEnd_append [OF assms(1,2)] assms(3))

text \<open>
  C10. For a positive scan limit, \<open>findFromEnd\<close> returns the sentinel when the buffer
  is empty or the window of \<open>min limit size\<close> bytes is shorter than the pattern; any other
  result is the index where the last occurrence of the pattern inside the trailing window
  starts; a non-empty pattern that occurs in the window is found; and the bytes before
  the window do not influence the result.
\<close>

theorem findFromEnd_last_occurrence:
  assumes "0 < limit"
  shows "(byteArray = [] \<or> min (int (length byteArray)) limit < int (length what)
            \<longrightarrow> findFromEnd nf what byteArray limit = nf)
     \<and> (findFromEnd nf what byteArray limit = nf \<or>
          (\<exists>i. findFromEnd nf what byteArray limit = int i \<and>
               last_in_window what byteArray (window_start byteArray limit) i))
     \<and> (what \<noteq> [] \<and> (\<exists>j \<ge> window_start byteArray limit. occurs_at what byteArray j)
            \<longrightarrow> (\<exists>i. findFromEnd nf what byteArray limit = int i \<and>
               last_in_window what byteArray (window_start byteArray limit) i))
     \<and> (\<forall>pre pre' win. byteArray = pre @ win \<and> limit \<le> int (length win) \<and> length pre' = length pre
            \<longrightarrow> findFromEnd nf what (pre' @ win) limit = findFromEnd nf what byteArray limit)"
  using findFromEnd_early [of byteArray limit what nf]
    findFromEnd_result [OF assms, of nf what byteArray]
    findFromEnd_complete [OF assms, of what byteArray _ nf]
    findFromEnd_prefix_irrelevant [OF assms, of _ _ _ nf what]
  by (intro conjI impI allI) (blast, blast, blast, metis)

text \<open>The scan for \<open>%%E\<close> in an eight-byte buffer with limit 6.\<close>

theorem findFromEnd_last_occurrence_witness:
  "findFromEnd (-1) [37, 37, 69] [1, 37, 37, 69, 37, 37, 69, 10] 6 = 4
   \<and> last_in_window [37, 37, 69] [1, 37, 37, 69, 37, 37, 69, 10 :: byte] 2 4"
  using findFromEnd_last_occurrence [of 6 "[1, 37, 37, 69, 37, 37, 69, 10]" "[37, 37, 69]" "-1"]
  by (simp add: findFromEnd_def find_end_def last_in_window_def occurs_at_def window_start_def)

section \<open>Proofs: the remainder modulo 3\<close>

lemma bit_test: "drop_bit i (b::byte) AND 1 \<noteq> 0 \<longleftrightarrow> bit b i"
  by (simp add: bit_iff_and_drop_bit_eq_1 and_one_eq)

lemma bit_test0: "(b::byte) AND 1 \<noteq> 0 \<longleftrightarrow> bit b 0"
  using bit_test [of 0 b] by simp

lemma upt8: "[0..<8] = [0,1,2,3,4,5,6,7]"
  by code_simp

lemma uint_bits:
  "uint (b::byte) = of_bool (bit b 0) + 2 * of_bool (bit b 1) + 4 * of_bool (bit b 2)
     + 8 * of_bool (bit b 3) + 16 * of_bool (bit b 4) + 32 * of_bool (bit b 5)
     + 64 * of_bool (bit b 6) + 128 * of_bool (bit b 7)"
proof -
  have "uint b = take_bit 8 (uint b)"
  proof -
    have "uint b < 2 ^ 8" using uint_lt2p [of b] by simp
    then show ?thesis by (simp add: take_bit_int_eq_self)
  qed
  also have "\<dots> = horner_sum of_bool 2 (map (bit (uint b)) [0..<8])"
    by (simp only: horner_sum_bit_eq_take_bit)
  finally show ?thesis
    by (simp add: upt8 bit_uint_iff)
qed

lemma byte_weight_mod3: "byte_weight b mod 3 = uint b mod 3"
proof -
  have "uint b = byte_weight b + 3 * (of_bool (bit b 2) + 2 * of_bool (bit b 3) + 5 * of_bool (bit b 4)
     + 10 * of_bool (bit b 5) + 21 * of_bool (bit b 6) + 42 * of_bool (bit b 7))"
    unfolding byte_weight_def by (subst uint_bits) simp
  then show ?thesis by (metis mod_mult_self2)
qed

lemma bit_step_eq: "bit_step b i (acc, cur) = (acc + of_bool (bit b i) * cur, 3 - cur)"
  unfolding bit_step_def by (simp only: bit_test split: prod.splits) simp

lemma bits_fold: "fst (fold (bit_step b) [0..<8] (acc, 1)) = acc + byte_weight b"
  unfolding upt8 by (simp only: fold_simps bit_step_eq byte_weight_def o_apply) simp


lemma bytes_fold:
  "n \<le> length E \<Longrightarrow> fold (byte_step E) [0..<n] a = fold (\<lambda>b a. a + byte_weight b) (take n E) a"
proof (induction n)
  case 0
  then show ?case by simp
next
  case (Suc n)
  then show ?case
    by (simp add: take_Suc_conv_app_nth byte_step_def bits_fold)
qed

lemma weights_congruent:
  "a mod 3 = a' mod 3 \<Longrightarrow>
   fold (\<lambda>b a. a + byte_weight b) bs a mod 3 = foldl (\<lambda>a b. a * 256 + uint b) a' bs mod 3"
proof (induction bs arbitrary: a a')
  case Nil
  then show ?case by simp
next
  case (Cons b bs)
  have "(a + byte_weight b) mod 3 = (a' * 256 + uint b) mod 3"
  proof -
    have "a' * 256 + uint b = (a' + uint b) + 3 * (85 * a')"
      by simp
    then have "(a' * 256 + uint b) mod 3 = (a' + uint b) mod 3"
      by (simp only: mod_mult_self2)
    also have "\<dots> = (a' mod 3 + uint b mod 3) mod 3"
      by (simp only: mod_add_eq)
    also have "\<dots> = (a mod 3 + byte_weight b mod 3) mod 3"
      by (simp only: Cons.prems byte_weight_mod3)
    also have "\<dots> = (a + byte_weight b) mod 3"
      by (simp only: mod_add_eq)
    finally show ?thesis by simp
  qed
  from Cons.IH [OF this] show ?case by simp
qed

text \<open>
  C7. The accumulation over the first 16 bytes of \<open>E\<close>, reduced modulo 3, is the
  remainder modulo 3 of the unsigned 128-bit big-endian integer those bytes form.
\<close>

theorem remainder_r6_is_mod3:
  "16 \<le> length E \<Longrightarrow> remainder_r6 E = be_uint (take 16 E) mod 3"
  unfolding remainder_r6_def be_uint_def
  by (simp only: bytes_fold) (rule weights_congruent, simp)

text \<open>Sixteen bytes \<open>1, 2, ..., 15, 255\<close> followed by one more.\<close>

theorem remainder_r6_is_mod3_witness:
  "remainder_r6 [1, 2, 3, 4, 5, 6, 7, 8, 9, 10, 11, 12, 13, 14, 15, 255, 3]
     = be_uint (take 16 [1, 2, 3, 4, 5, 6, 7, 8, 9, 10, 11, 12, 13, 14, 15, 255, 3]) mod 3"
  using remainder_r6_is_mod3 [of "[1, 2, 3, 4, 5, 6, 7, 8, 9, 10, 11, 12, 13, 14, 15, 255, 3]"]
  by simp

section \<open>Proofs: key derivation for revisions 2, 3 and 4\<close>

lemma padded_eq: "createPaddedPassword32 password = pad_or_truncate32 password"
  by (simp add: createPaddedPassword32_def pad_or_truncate32_def min_def)

lemma rehash_funpow:
  "take (nat k) ((rehash lib k ^^ m) d) = ((\<lambda>key. take (nat k) (md5 lib key)) ^^ m) (take (nat k) d)"
  by (induction m) (simp_all add: rehash_def)

lemma le_byte: "(ucast (drop_bit (8 * i) (w :: 32 word)) :: byte) = of_nat (unat w div 256 ^ i mod 256)"
proof -
  have p: "(256::nat) ^ i = 2 ^ (8 * i)"
    by (simp add: power_mult)
  have "(ucast (drop_bit (8 * i) w) :: byte) = of_nat (unat (drop_bit (8 * i) w))"
    by (metis of_nat_unat)
  also have "\<dots> = of_nat (unat w div 2 ^ (8 * i))"
    by (subst unat_drop_bit_eq) (simp only: drop_bit_eq_div)
  also have "\<dots> = (of_nat (unat w div 2 ^ (8 * i) mod 256) :: byte)"
    by (simp add: word_of_nat_eq_iff take_bit_eq_mod)
  finally show ?thesis by (simp only: p)
qed

lemma le_bytes_eq: "le_bytes32 w = le4_spec w"
  by (simp add: le_bytes32_def le4_spec_def le_byte)

lemma to_int_small: "to_int 2 = 2" "to_int 3 = 3" "to_int 256 = 256" "to_int (- 4) = - 4"
  by (simp_all add: to_int_def)

text \<open>
  Below the guard on the key length, \<open>createFileEncryptionKey\<close> returns the key that the
  specification describes, and the guard is the only exception of revisions 2, 3 and 4.
\<close>

lemma createFileEncryptionKey_below_guard:
  assumes "m_R h = 2 \<or> m_R h = 3 \<or> m_R h = 4" and "m_keyLength h div 8 \<le> 16"
  shows "createFileEncryptionKey lib h password = Inr (deriveFileKey_spec lib h password)"
  using assms
  by (auto simp add: createFileEncryptionKey_def deriveFileKey_spec_def Let_def
      padded_eq le_bytes_eq rehash_funpow)

lemma createFileEncryptionKey_guard:
  assumes "m_R h = 2 \<or> m_R h = 3 \<or> m_R h = 4" and "16 < m_keyLength h div 8"
  shows "createFileEncryptionKey lib h password = Inl (KeyLengthExceeded (m_keyLength h div 8))"
  using assms by (simp add: createFileEncryptionKey_def Let_def)

text \<open>
  \<open>createFileEncryptionKey\<close> is called in \<open>authenticate\<close> only, at lines 302 and 315, and
  line 301 before them calls \<open>createUserPasswordFromOwnerPassword\<close>, which has the same
  guard: where it returns, the key length is within the guard, and where the key length
  is above it, the pass of \<open>authenticate\<close> ends at line 301 and derives no key.
\<close>

lemma createUserPasswordFromOwnerPassword_guard:
  assumes "createUserPasswordFromOwnerPassword lib h password = Inr userPassword"
  shows "m_keyLength h div 8 \<le> 16"
proof (rule ccontr)
  assume "\<not> m_keyLength h div 8 \<le> 16"
  then have "createUserPasswordFromOwnerPassword lib h password
               = Inl (KeyLengthExceeded (m_keyLength h div 8))"
    by (simp add: createUserPasswordFromOwnerPassword_def Let_def)
  with assms show False by simp
qed

lemma authenticate_r234_guard:
  assumes "16 < m_keyLength h div 8"
  shows "createUserPasswordFromOwnerPassword lib h password
           = Inl (KeyLengthExceeded (m_keyLength h div 8))"
    and "authenticate_r234 lib h password = Inl (KeyLengthExceeded (m_keyLength h div 8))"
  using assms
  by (simp_all add: authenticate_r234_def createUserPasswordFromOwnerPassword_def Let_def
      bindE_def)

text \<open>
  The dictionary with \<open>V = 2\<close>, \<open>Length = 256\<close> and \<open>R = 3\<close> passes
  \<open>createSecurityHandler\<close>; with its handler the pass of \<open>authenticate\<close> ends in the
  exception of line 301, before any key is derived.
\<close>

lemma long_key_stops_at_line_301:
  "createSecurityHandler handler0_example filter0_example encrypt_long_key [] =
     Inr (Standard handler_long_key)
   \<and> createUserPasswordFromOwnerPassword toy_library handler_long_key []
       = Inl (KeyLengthExceeded 32)
   \<and> authenticate_r234 toy_library handler_long_key [] = Inl (KeyLengthExceeded 32)"
  by (simp add: createSecurityHandler_def encrypt_long_key_def handler_long_key_def
      handler0_example_def filter0_example_def bindE_def getName_def getInt_def
      readVersion_def readRevision_def readByteArray_def authenticate_r234_def
      createUserPasswordFromOwnerPassword_def Let_def to_int_small)

text \<open>
  C4. For revisions 2, 3 and 4, at every call that the program makes, that is, once
  \<open>createUserPasswordFromOwnerPassword\<close> at line 301 has returned for the candidate of the
  pass, \<open>createFileEncryptionKey\<close> returns for every password, so for the two it is called
  with (the user password of line 301 and the candidate itself), the key of the
  specification: the password padded or truncated to 32 bytes with the padding constant;
  the digest of the padded password, \<open>O\<close>, the permissions as 4 little-endian bytes, the
  document id and the 4 bytes \<open>0xFF\<close> exactly when metadata encryption is disabled; its
  first \<open>keyLengthBits / 8\<close> bytes; and for revision 3 and later 50 rounds of the
  same-length prefix of the digest of the current key bytes.
\<close>

theorem createFileEncryptionKey_derives_key:
  assumes "m_R h = 2 \<or> m_R h = 3 \<or> m_R h = 4"
    and "createUserPasswordFromOwnerPassword lib h candidate' = Inr userPassword"
  shows "createFileEncryptionKey lib h password = Inr (deriveFileKey_spec lib h password)"
  using assms(1) createUserPasswordFromOwnerPassword_guard [OF assms(2)]
  by (rule createFileEncryptionKey_below_guard)

text \<open>
  The candidate \<open>AB\<close> with the revision 3 handler and its 40-bit key: line 301 returns
  the user password, and both calls return the key of the specification, five bytes.
\<close>

lemma handler_r3_line_301:
  "createUserPasswordFromOwnerPassword toy_library handler_r3 [65, 66] = Inr (replicate 32 7)"
  by code_simp

lemma handler_r3_keys:
  "createFileEncryptionKey toy_library handler_r3 (replicate 32 7) = Inr [7, 7, 7, 7, 7]"
  "createFileEncryptionKey toy_library handler_r3 [65, 66] = Inr [65, 66, 40, 191, 78]"
  by code_simp+

theorem createFileEncryptionKey_derives_key_witness:
  "createUserPasswordFromOwnerPassword toy_library handler_r3 [65, 66] = Inr (replicate 32 7)
   \<and> createFileEncryptionKey toy_library handler_r3 (replicate 32 7)
       = Inr (deriveFileKey_spec toy_library handler_r3 (replicate 32 7))
   \<and> createFileEncryptionKey toy_library handler_r3 [65, 66]
       = Inr (deriveFileKey_spec toy_library handler_r3 [65, 66])
   \<and> deriveFileKey_spec toy_library handler_r3 (replicate 32 7) = [7, 7, 7, 7, 7]
   \<and> deriveFileKey_spec toy_library handler_r3 [65, 66] = [65, 66, 40, 191, 78]"
proof -
  have revision: "m_R handler_r3 = 2 \<or> m_R handler_r3 = 3 \<or> m_R handler_r3 = 4"
    by (simp add: handler_r3_def handler0_example_def)
  note key = createFileEncryptionKey_derives_key [OF revision handler_r3_line_301]
  have "deriveFileKey_spec toy_library handler_r3 (replicate 32 7) = [7, 7, 7, 7, 7]"
    using key [of "replicate 32 7"] handler_r3_keys(1) by (metis Inr_inject)
  moreover have "deriveFileKey_spec toy_library handler_r3 [65, 66] = [65, 66, 40, 191, 78]"
    using key [of "[65, 66]"] handler_r3_keys(2) by (metis Inr_inject)
  ultimately show ?thesis
    using handler_r3_line_301 key [of "replicate 32 7"] key [of "[65, 66]"] by blast
qed

section \<open>Proofs: the U entry and the revision 6 hash\<close>

lemma fold_rc4_length:
  assumes "\<forall>k x. length (rc4 lib k x) = length x"
  shows "length (fold (\<lambda>i e. rc4 lib (xor_key key i) e) is e0) = length e0"
  using assms by (induction "is" arbitrary: e0) simp_all

lemma copy_n_parts:
  assumes "length src = n" and "n \<le> length dst"
  shows "take n (copy_n src n dst) = src" and "drop n (copy_n src n dst) = drop n dst"
    and "length (copy_n src n dst) = length dst"
  using assms by (simp_all add: copy_n_def)

text \<open>
  C5. For revisions 3 and 4 and a stored \<open>U\<close> of 32 bytes (the size that
  \<open>createSecurityHandler\<close> enforces for these revisions), the value that
  \<open>createEntryValueU_r234\<close> returns for any file encryption key has 32 bytes and agrees
  with the stored \<open>U\<close> on bytes 16 to 31, so it equals the stored \<open>U\<close> exactly when the
  first 16 bytes agree.
\<close>

theorem createEntryValueU_r234_tail:
  assumes "library_sizes lib" and "m_R h = 3 \<or> m_R h = 4" and "length (m_U h) = 32"
  shows "\<exists>U. createEntryValueU_r234 lib h key = Inr U \<and> length U = 32
           \<and> drop 16 U = drop 16 (m_U h)
           \<and> (U = m_U h \<longleftrightarrow> take 16 U = take 16 (m_U h))"
proof -
  define e where "e = fold (\<lambda>i encryptedHash. rc4 lib (xor_key key i) encryptedHash) [1..<20]
      (rc4 lib key (md5 lib (PDFPasswordPadding @ m_ID h)))"
  have r: "\<forall>k x. length (rc4 lib k x) = length x" and m: "\<forall>x. length (md5 lib x) = 16"
    using assms(1) by (simp_all add: library_sizes_def)
  have len: "length e = 16"
    unfolding e_def by (simp add: fold_rc4_length [OF r] r m)
  have u: "createEntryValueU_r234 lib h key = Inr (copy_n e 16 (m_U h))"
    using assms(2) by (auto simp: createEntryValueU_r234_def Let_def e_def)
  have le: "16 \<le> length (m_U h)"
    using assms(3) by simp
  note parts = copy_n_parts [OF len le]
  have "copy_n e 16 (m_U h) = m_U h \<longleftrightarrow> take 16 (copy_n e 16 (m_U h)) = take 16 (m_U h)"
  proof
    assume "take 16 (copy_n e 16 (m_U h)) = take 16 (m_U h)"
    then have "take 16 (copy_n e 16 (m_U h)) @ drop 16 (copy_n e 16 (m_U h))
        = take 16 (m_U h) @ drop 16 (m_U h)"
      by (simp only: parts(2))
    then show "copy_n e 16 (m_U h) = m_U h"
      by (simp only: append_take_drop_id)
  qed simp
  with u parts assms(3) show ?thesis by simp
qed

lemma toy_library_sizes: "library_sizes toy_library"
  by (auto simp: library_sizes_def toy_library_def toy_digest_def toy_cipher_def min_def)

text \<open>The revision 3 handler, whose stored \<open>U\<close> is 32 bytes of 9, and a five-byte key.\<close>

theorem createEntryValueU_r234_tail_witness:
  "\<exists>U. createEntryValueU_r234 toy_library handler_r3 [1, 2, 3, 4, 5] = Inr U \<and> length U = 32
      \<and> drop 16 U = drop 16 (m_U handler_r3)
      \<and> (U = m_U handler_r3 \<longleftrightarrow> take 16 U = take 16 (m_U handler_r3))"
  using createEntryValueU_r234_tail [OF toy_library_sizes, of handler_r3 "[1, 2, 3, 4, 5]"]
  by (simp add: handler_r3_def handler0_example_def)

lemma createHash_r6_loop_exit:
  "round \<le> 287 \<Longrightarrow>
   (case createHash_r6_loop lib password userKey K E round of
      (K', E', round') \<Rightarrow>
        round \<le> round' \<and> round' \<le> 287 \<and> 64 \<le> round' \<and> uint (last E') + 32 \<le> round')"
proof (induction lib password userKey K E round rule: createHash_r6_loop.induct)
  case (1 lib password userKey K E round)
  show ?case
  proof (cases "round < 64 \<or> round < uint (last E) + 32")
    case True
    have "uint (last E) < 256"
      using uint_lt2p [of "last E"] by simp
    with True have b: "round + 1 \<le> 287" by linarith
    from "1.IH" [OF True refl refl refl refl b] True show ?thesis
      by (subst createHash_r6_loop.simps) (auto simp: Let_def split: prod.splits)
  next
    case False
    with "1.prems" show ?thesis
      by (subst createHash_r6_loop.simps) simp
  qed
qed

text \<open>
  C8. The loop of \<open>createHash_r6\<close> is a total function. Started in round 0 it leaves
  with a round count of at least 64 and at least the last byte of \<open>E\<close> plus 32, after at
  most 287 rounds; a state whose round count satisfies both bounds is left at once; and
  the result of \<open>createHash_r6\<close> is the first 32 bytes of the final \<open>K\<close>.
\<close>

theorem createHash_r6_terminates:
  "(case createHash_r6_loop lib password userKey K [] 0 of
      (K', E', round') \<Rightarrow> 64 \<le> round' \<and> uint (last E') + 32 \<le> round' \<and> round' \<le> 287)
   \<and> (64 \<le> round \<and> uint (last E) + 32 \<le> round \<longrightarrow>
        createHash_r6_loop lib password userKey K E round = (K, E, round))
   \<and> createHash_r6 lib h input inputPassword useUserKey =
       take 32 (fst (createHash_r6_loop lib inputPassword (if useUserKey then m_U h else [])
                       (sha256 lib input) [] 0))"
proof (intro conjI impI)
  show "case createHash_r6_loop lib password userKey K [] 0 of
      (K', E', round') \<Rightarrow> 64 \<le> round' \<and> uint (last E') + 32 \<le> round' \<and> round' \<le> 287"
    using createHash_r6_loop_exit [of 0 lib password userKey K "[]"]
    by (auto split: prod.splits)
next
  assume "64 \<le> round \<and> uint (last E) + 32 \<le> round"
  then show "createHash_r6_loop lib password userKey K E round = (K, E, round)"
    by (subst createHash_r6_loop.simps) simp
next
  show "createHash_r6 lib h input inputPassword useUserKey =
       take 32 (fst (createHash_r6_loop lib inputPassword (if useUserKey then m_U h else [])
                       (sha256 lib input) [] 0))"
    by (simp add: createHash_r6_def Let_def split: prod.splits)
qed

text \<open>A state in round 64 whose \<open>E\<close> ends in the byte 3.\<close>

theorem createHash_r6_terminates_witness:
  "createHash_r6_loop toy_library [65] [] (replicate 32 0) [7, 3] 64 = (replicate 32 0, [7, 3], 64)
   \<and> (case createHash_r6_loop toy_library [65] [] (replicate 32 0) [] 0 of
        (K', E', round') \<Rightarrow> 64 \<le> round' \<and> uint (last E') + 32 \<le> round' \<and> round' \<le> 287)"
  using createHash_r6_terminates
    [of toy_library "[65]" "[]" "replicate 32 0" 64 "[7, 3]" handler_r3 "[]" "[]" False]
  by simp

section \<open>Proofs: authenticate\<close>

lemma createHash_r6_authorize [simp]:
  "createHash_r6 lib (authorize h r k) = createHash_r6 lib h"
  by (simp add: createHash_r6_def authorize_def fun_eq_iff)

lemma authenticate_r234_None:
  "authenticate_r234 lib h password = Inr (None, h') \<Longrightarrow> h' = h"
  by (auto simp: authenticate_r234_def bindE_def split: sum.splits if_splits)

lemma authenticate_r234_Some:
  "authenticate_r234 lib h password = Inr (Some r, h') \<Longrightarrow> r = OwnerAuthorized \<or> r = UserAuthorized"
  by (auto simp: authenticate_r234_def bindE_def split: sum.splits if_splits)

lemma isAuthorized_authorize [simp]:
  "isAuthorized (m_authorizationData (authorize h r key)) \<longleftrightarrow> r = UserAuthorized \<or> r = OwnerAuthorized"
  by (simp add: isAuthorized_def authorize_def)

lemma authorize_fields [simp]:
  "m_U (authorize h r key) = m_U h" "m_O (authorize h r key) = m_O h"
  "m_OE (authorize h r key) = m_OE h" "m_UE (authorize h r key) = m_UE h"
  "authorizationResult (m_authorizationData (authorize h r key)) = r"
  "fileEncryptionKey (m_authorizationData (authorize h r key)) = key"
  by (simp_all add: authorize_def)

text \<open>The four ways through the revision 6 branch, by the two hash checks.\<close>

lemma authenticate_r6_owner:
  assumes "createHash_r6 lib h (password @ validationSalt (parseParts (m_O h)) @ m_U h) password True
             = hash (parseParts (m_O h))"
  shows "authenticate_r6 lib h password =
     Inr (Some OwnerAuthorized,
          authorize h OwnerAuthorized
            (aes_cbc_decrypt lib
               (createHash_r6 lib h (password @ keySalt (parseParts (m_O h)) @ m_U h) password True)
               zeroInitializationVector (m_OE h)))"
  unfolding authenticate_r6_def Let_def by (simp only: assms if_True) simp

lemma authenticate_r6_already:
  assumes "createHash_r6 lib h (password @ validationSalt (parseParts (m_O h)) @ m_U h) password True
             \<noteq> hash (parseParts (m_O h))"
    and "isAuthorized (m_authorizationData h)"
  shows "authenticate_r6 lib h password = Inr (Some (authorizationResult (m_authorizationData h)), h)"
  unfolding authenticate_r6_def Let_def by (simp only: assms if_False if_True not_True_eq_False)

lemma authenticate_r6_user:
  assumes "createHash_r6 lib h (password @ validationSalt (parseParts (m_O h)) @ m_U h) password True
             \<noteq> hash (parseParts (m_O h))"
    and "\<not> isAuthorized (m_authorizationData h)"
    and "createHash_r6 lib h (password @ validationSalt (parseParts (m_U h))) password False
             = hash (parseParts (m_U h))"
  shows "authenticate_r6 lib h password =
     Inr (Some UserAuthorized,
          authorize h UserAuthorized
            (aes_cbc_decrypt lib
               (createHash_r6 lib h (password @ keySalt (parseParts (m_U h))) password False)
               zeroInitializationVector (m_OE h)))"
  unfolding authenticate_r6_def Let_def
  by (simp only: assms if_False if_True not_False_eq_True) simp

lemma authenticate_r6_none:
  assumes "createHash_r6 lib h (password @ validationSalt (parseParts (m_O h)) @ m_U h) password True
             \<noteq> hash (parseParts (m_O h))"
    and "\<not> isAuthorized (m_authorizationData h)"
    and "createHash_r6 lib h (password @ validationSalt (parseParts (m_U h))) password False
             \<noteq> hash (parseParts (m_U h))"
  shows "authenticate_r6 lib h password = Inr (None, h)"
  unfolding authenticate_r6_def Let_def
  by (simp only: assms if_False if_True not_False_eq_True)

lemma authenticate_r6_None:
  assumes "authenticate_r6 lib h password = Inr (None, h')"
  shows "h' = h"
proof (cases "createHash_r6 lib h (password @ validationSalt (parseParts (m_O h)) @ m_U h) password True
             = hash (parseParts (m_O h))")
  case True
  from authenticate_r6_owner [OF True] assms show ?thesis by simp
next
  case o: False
  show ?thesis
  proof (cases "isAuthorized (m_authorizationData h)")
    case True
    from authenticate_r6_already [OF o True] assms show ?thesis by simp
  next
    case a: False
    show ?thesis
    proof (cases "createHash_r6 lib h (password @ validationSalt (parseParts (m_U h))) password False
             = hash (parseParts (m_U h))")
      case True
      from authenticate_r6_user [OF o a True] assms show ?thesis by simp
    next
      case False
      from authenticate_r6_none [OF o a False] assms show ?thesis by simp
    qed
  qed
qed

lemma authenticate_r6_Some:
  assumes "authenticate_r6 lib h password = Inr (Some r, h')"
  shows "r = OwnerAuthorized \<or> r = UserAuthorized"
proof (cases "createHash_r6 lib h (password @ validationSalt (parseParts (m_O h)) @ m_U h) password True
             = hash (parseParts (m_O h))")
  case True
  from authenticate_r6_owner [OF True] assms show ?thesis by simp
next
  case o: False
  show ?thesis
  proof (cases "isAuthorized (m_authorizationData h)")
    case True
    from authenticate_r6_already [OF o True] assms True show ?thesis
      by (auto simp: isAuthorized_def)
  next
    case a: False
    show ?thesis
    proof (cases "createHash_r6 lib h (password @ validationSalt (parseParts (m_U h))) password False
             = hash (parseParts (m_U h))")
      case True
      from authenticate_r6_user [OF o a True] assms show ?thesis by simp
    next
      case False
      from authenticate_r6_none [OF o a False] assms show ?thesis by simp
    qed
  qed
qed

lemma authenticate_pass_None:
  "authenticate_pass lib h password = Inr (None, h') \<Longrightarrow> h' = h"
  by (auto simp: authenticate_pass_def dest: authenticate_r234_None authenticate_r6_None
      split: if_splits)

lemma authenticate_pass_not_Cancelled:
  "authenticate_pass lib h password \<noteq> Inr (Some Cancelled, h')"
  by (auto simp: authenticate_pass_def dest: authenticate_r234_Some authenticate_r6_Some
      split: if_splits)

lemma exhausted_iff: "exhausted lib h password \<longleftrightarrow> authenticate_pass lib h password = Inr (None, h)"
  by (auto simp: exhausted_def dest: authenticate_pass_None split: sum.splits option.splits)

lemma authenticate_loop_Cancelled:
  "authenticate_loop fuel lib cb h password calls = Some (Inr (Cancelled, h', n)) \<longleftrightarrow>
     (\<exists>k < fuel. n = calls + k + 1 \<and> h' = h \<and> exhausted lib h password
        \<and> (\<forall>j < k. snd (cb (calls + j)) \<and> exhausted lib h (toUtf8 lib (fst (cb (calls + j)))))
        \<and> \<not> snd (cb (calls + k)))"
proof (induction fuel arbitrary: password calls)
  case 0
  then show ?case by simp
next
  case (Suc fuel)
  show ?case
  proof (cases "exhausted lib h password")
    case False
    then have "authenticate_loop (Suc fuel) lib cb h password calls \<noteq> Some (Inr (Cancelled, h', n))"
      using authenticate_pass_not_Cancelled [of lib h password]
      by (auto simp: exhausted_def split: sum.splits option.splits)
    with False show ?thesis by blast
  next
    case True
    then have p: "authenticate_pass lib h password = Inr (None, h)"
      by (simp add: exhausted_iff)
    show ?thesis
    proof (cases "snd (cb calls)")
      case False
      then have "authenticate_loop (Suc fuel) lib cb h password calls
          = Some (Inr (Cancelled, h, calls + 1))"
        using p by (simp add: split_beta)
      moreover have "(\<exists>k < Suc fuel. n = calls + k + 1 \<and> h' = h \<and> exhausted lib h password
        \<and> (\<forall>j < k. snd (cb (calls + j)) \<and> exhausted lib h (toUtf8 lib (fst (cb (calls + j)))))
        \<and> \<not> snd (cb (calls + k))) \<longleftrightarrow> (n = calls + 1 \<and> h' = h)"
      proof
        assume "\<exists>k < Suc fuel. n = calls + k + 1 \<and> h' = h \<and> exhausted lib h password
          \<and> (\<forall>j < k. snd (cb (calls + j)) \<and> exhausted lib h (toUtf8 lib (fst (cb (calls + j)))))
          \<and> \<not> snd (cb (calls + k))"
        then obtain k where k: "n = calls + k + 1" "h' = h"
          "\<forall>j < k. snd (cb (calls + j)) \<and> exhausted lib h (toUtf8 lib (fst (cb (calls + j))))"
          by blast
        have "k = 0"
        proof (rule ccontr)
          assume "k \<noteq> 0"
          then have "0 < k" by simp
          with k(3) have "snd (cb (calls + 0))" by blast
          with False show False by simp
        qed
        with k show "n = calls + 1 \<and> h' = h" by simp
      next
        assume "n = calls + 1 \<and> h' = h"
        with True False show "\<exists>k < Suc fuel. n = calls + k + 1 \<and> h' = h \<and> exhausted lib h password
          \<and> (\<forall>j < k. snd (cb (calls + j)) \<and> exhausted lib h (toUtf8 lib (fst (cb (calls + j)))))
          \<and> \<not> snd (cb (calls + k))"
          by (intro exI [of _ 0]) simp
      qed
      ultimately show ?thesis by auto
    next
      case flag: True
      let ?pw = "toUtf8 lib (fst (cb calls))"
      have step: "authenticate_loop (Suc fuel) lib cb h password calls
          = authenticate_loop fuel lib cb h ?pw (calls + 1)"
        using p flag by (simp add: split_beta)
      have "(\<exists>k < fuel. n = (calls + 1) + k + 1 \<and> h' = h \<and> exhausted lib h ?pw
          \<and> (\<forall>j < k. snd (cb ((calls + 1) + j)) \<and> exhausted lib h (toUtf8 lib (fst (cb ((calls + 1) + j)))))
          \<and> \<not> snd (cb ((calls + 1) + k)))
        \<longleftrightarrow> (\<exists>k < Suc fuel. n = calls + k + 1 \<and> h' = h \<and> exhausted lib h password
          \<and> (\<forall>j < k. snd (cb (calls + j)) \<and> exhausted lib h (toUtf8 lib (fst (cb (calls + j)))))
          \<and> \<not> snd (cb (calls + k)))" (is "?L \<longleftrightarrow> ?R")
      proof
        assume ?L
        then obtain k where k: "k < fuel" "n = (calls + 1) + k + 1" "h' = h" "exhausted lib h ?pw"
          "\<forall>j < k. snd (cb ((calls + 1) + j)) \<and> exhausted lib h (toUtf8 lib (fst (cb ((calls + 1) + j))))"
          "\<not> snd (cb ((calls + 1) + k))"
          by blast
        have "snd (cb (calls + j)) \<and> exhausted lib h (toUtf8 lib (fst (cb (calls + j))))"
          if "j < Suc k" for j
        proof (cases j)
          case 0
          with flag k(4) show ?thesis by simp
        next
          case (Suc i)
          with that k(5) show ?thesis by simp
        qed
        with k True show ?R
          by (intro exI [of _ "Suc k"]) simp
      next
        assume ?R
        then obtain k where k: "k < Suc fuel" "n = calls + k + 1" "h' = h"
          "\<forall>j < k. snd (cb (calls + j)) \<and> exhausted lib h (toUtf8 lib (fst (cb (calls + j))))"
          "\<not> snd (cb (calls + k))"
          by blast
        from k(5) flag obtain i where i: "k = Suc i"
          by (cases k) auto
        have "snd (cb ((calls + 1) + j)) \<and> exhausted lib h (toUtf8 lib (fst (cb ((calls + 1) + j))))"
          if "j < i" for j
          using k(4) that i by (metis Suc_less_eq add_Suc_right add_Suc_shift plus_1_eq_Suc add.commute)
        moreover have "exhausted lib h ?pw"
          using k(4) i by (metis add.right_neutral zero_less_Suc)
        ultimately show ?L
          using k i by (intro exI [of _ i]) simp
      qed
      with step Suc.IH [of ?pw "calls + 1"] show ?thesis by simp
    qed
  qed
qed

lemma candidates_exhausted:
  "(\<forall>j \<le> k. exhausted lib h (candidate lib cb j)) \<longleftrightarrow>
     exhausted lib h [] \<and> (\<forall>j < k. exhausted lib h (toUtf8 lib (fst (cb j))))"
proof
  assume a: "\<forall>j \<le> k. exhausted lib h (candidate lib cb j)"
  have "exhausted lib h (toUtf8 lib (fst (cb j)))" if "j < k" for j
    using a [rule_format, of "Suc j"] that by simp
  moreover have "exhausted lib h []"
    using a [rule_format, of 0] by simp
  ultimately show "exhausted lib h [] \<and> (\<forall>j < k. exhausted lib h (toUtf8 lib (fst (cb j))))"
    by blast
next
  assume a: "exhausted lib h [] \<and> (\<forall>j < k. exhausted lib h (toUtf8 lib (fst (cb j))))"
  show "\<forall>j \<le> k. exhausted lib h (candidate lib cb j)"
  proof (intro allI impI)
    fix j assume "j \<le> k"
    with a show "exhausted lib h (candidate lib cb j)"
      by (cases j) auto
  qed
qed

lemma authenticate_unsupported:
  assumes "m_R h \<noteq> 2" "m_R h \<noteq> 3" "m_R h \<noteq> 4" "m_R h \<noteq> 6"
  shows "authenticate (Suc fuel) lib cb h = Some (Inr (Failed, cleared h, 0))"
  using assms by (simp add: authenticate_def authenticate_pass_def cleared_def)

lemma authenticate_Cancelled_iff:
  "(\<exists>fuel h' n. authenticate fuel lib cb h = Some (Inr (Cancelled, h', n))) \<longleftrightarrow>
   (\<exists>k. (\<forall>j \<le> k. exhausted lib (cleared h) (candidate lib cb j))
        \<and> (\<forall>j < k. snd (cb j)) \<and> \<not> snd (cb k))"
proof
  assume "\<exists>fuel h' n. authenticate fuel lib cb h = Some (Inr (Cancelled, h', n))"
  then obtain fuel h' n where
    "authenticate_loop fuel lib cb (cleared h) [] 0 = Some (Inr (Cancelled, h', n))"
    by (auto simp: authenticate_def cleared_def)
  then obtain k where "exhausted lib (cleared h) []"
    "\<forall>j < k. snd (cb j) \<and> exhausted lib (cleared h) (toUtf8 lib (fst (cb j)))" "\<not> snd (cb k)"
    unfolding authenticate_loop_Cancelled by auto
  then show "\<exists>k. (\<forall>j \<le> k. exhausted lib (cleared h) (candidate lib cb j))
        \<and> (\<forall>j < k. snd (cb j)) \<and> \<not> snd (cb k)"
    unfolding candidates_exhausted by blast
next
  assume "\<exists>k. (\<forall>j \<le> k. exhausted lib (cleared h) (candidate lib cb j))
        \<and> (\<forall>j < k. snd (cb j)) \<and> \<not> snd (cb k)"
  then obtain k where k: "exhausted lib (cleared h) []"
    "\<forall>j < k. exhausted lib (cleared h) (toUtf8 lib (fst (cb j)))"
    "\<forall>j < k. snd (cb j)" "\<not> snd (cb k)"
    unfolding candidates_exhausted by blast
  then have "authenticate_loop (Suc k) lib cb (cleared h) [] 0
      = Some (Inr (Cancelled, cleared h, k + 1))"
    unfolding authenticate_loop_Cancelled by (intro exI [of _ k]) simp
  then show "\<exists>fuel h' n. authenticate fuel lib cb h = Some (Inr (Cancelled, h', n))"
    unfolding authenticate_def cleared_def by blast
qed

text \<open>
  C6. For a revision other than 2, 3, 4 and 6, \<open>authenticate\<close> returns \<open>Failed\<close> with
  no call of the password provider. It returns \<open>Cancelled\<close> exactly when the provider
  leaves \<open>false\<close> in its flag at some call while every candidate tried up to then (the
  empty password and the provider's earlier answers) has exhausted its pass without
  authorizing and every earlier call has left \<open>true\<close>.
\<close>

theorem authenticate_Failed_Cancelled:
  "(m_R h \<notin> {2, 3, 4, 6} \<longrightarrow>
      authenticate (Suc fuel) lib getPasswordCallback h = Some (Inr (Failed, cleared h, 0)))
   \<and> ((\<exists>fuel h' n. authenticate fuel lib getPasswordCallback h = Some (Inr (Cancelled, h', n)))
       \<longleftrightarrow>
       (\<exists>k. (\<forall>j \<le> k. exhausted lib (cleared h) (candidate lib getPasswordCallback j))
           \<and> (\<forall>j < k. snd (getPasswordCallback j)) \<and> \<not> snd (getPasswordCallback k)))"
  using authenticate_unsupported [of h fuel lib getPasswordCallback]
    authenticate_Cancelled_iff [of lib getPasswordCallback h]
  by (simp only: insert_iff empty_iff de_Morgan_disj simp_thms) blast

lemma exhausted_r3_first:
  "exhausted toy_library (cleared handler_r3) (candidate toy_library provider_once 0)"
  by code_simp

lemma exhausted_r3_second:
  "exhausted toy_library (cleared handler_r3) (candidate toy_library provider_once (Suc 0))"
  by code_simp

theorem authenticate_Failed_Cancelled_witness:
  "authenticate 1 toy_library provider_once handler_r7 = Some (Inr (Failed, cleared handler_r7, 0))
   \<and> (\<exists>fuel h' n. authenticate fuel toy_library provider_once handler_r3
                     = Some (Inr (Cancelled, h', n)))"
proof -
  have a: "m_R handler_r7 \<notin> {2, 3, 4, 6}"
    by (simp add: handler_r7_def handler0_example_def)
  have c: "\<forall>j \<le> 1. exhausted toy_library (cleared handler_r3) (candidate toy_library provider_once j)"
  proof (intro allI impI)
    fix j :: nat assume "j \<le> 1"
    then have "j = 0 \<or> j = Suc 0" by linarith
    then show "exhausted toy_library (cleared handler_r3) (candidate toy_library provider_once j)"
      using exhausted_r3_first exhausted_r3_second by blast
  qed
  have b: "\<exists>k. (\<forall>j \<le> k. exhausted toy_library (cleared handler_r3) (candidate toy_library provider_once j))
           \<and> (\<forall>j < k. snd (provider_once j)) \<and> \<not> snd (provider_once k)"
    using c by (intro exI [of _ 1]) (simp add: provider_once_def)
  from authenticate_Failed_Cancelled [of handler_r7 0 toy_library provider_once] a
  have "authenticate 1 toy_library provider_once handler_r7 = Some (Inr (Failed, cleared handler_r7, 0))"
    by simp
  moreover from authenticate_Failed_Cancelled [of handler_r3 0 toy_library provider_once] b
  have "\<exists>fuel h' n. authenticate fuel toy_library provider_once handler_r3
                     = Some (Inr (Cancelled, h', n))"
    by blast
  ultimately show ?thesis by blast
qed

section \<open>Proofs: the user branch of revision 6\<close>

lemma toy_loop_prefix:
  "take 32 K = replicate 32 0 \<Longrightarrow>
   take 32 (fst (createHash_r6_loop toy_library password userKey K E round)) = replicate 32 0"
proof (induction toy_library password userKey K E round rule: createHash_r6_loop.induct)
  case (1 password userKey K E round)
  show ?case
  proof (cases "round < 64 \<or> round < uint (last E) + 32")
    case True
    let ?E = "aes_cbc_encrypt toy_library (take 16 K) (take 16 (drop 16 K))
                (concat (replicate 64 (password @ K @ userKey)))"
    let ?K = "if remainder_r6 ?E = 0 then sha256 toy_library ?E
              else if remainder_r6 ?E = 1 then sha384 toy_library ?E
              else if remainder_r6 ?E = 2 then sha512 toy_library ?E
              else K"
    have k: "take 32 ?K = replicate 32 0"
      using "1.prems" by (simp add: toy_library_def)
    from "1.hyps" [OF True refl refl refl refl k] True show ?thesis
      by (subst createHash_r6_loop.simps) (simp add: Let_def)
  next
    case False
    with "1.prems" show ?thesis
      by (subst createHash_r6_loop.simps) simp
  qed
qed

lemma toy_createHash_r6: "createHash_r6 toy_library h input password useUserKey = replicate 32 0"
proof -
  have "take 32 (sha256 toy_library input) = replicate 32 0"
    by (simp add: toy_library_def)
  from toy_loop_prefix [OF this] show ?thesis
    by (simp add: createHash_r6_def Let_def split: prod.splits) (metis fst_conv)
qed

lemma authenticate_loop_skip:
  assumes "exhausted lib h password" and "snd (cb calls)"
  shows "authenticate_loop (Suc fuel) lib cb h password calls
     = authenticate_loop fuel lib cb h (toUtf8 lib (fst (cb calls))) (calls + 1)"
  using assms by (simp add: exhausted_iff split_beta)

lemma authenticate_loop_advance:
  assumes "\<forall>j < k. exhausted lib h (candidate lib cb j) \<and> snd (cb j)"
  shows "authenticate_loop (k + fuel) lib cb h [] 0
     = authenticate_loop fuel lib cb h (candidate lib cb k) k"
  using assms
proof (induction k arbitrary: fuel)
  case 0
  then show ?case by simp
next
  case (Suc k)
  have "authenticate_loop (Suc k + fuel) lib cb h [] 0
      = authenticate_loop (Suc fuel) lib cb h (candidate lib cb k) k"
    using Suc.IH [of "Suc fuel"] Suc.prems by simp
  also have "\<dots> = authenticate_loop fuel lib cb h (toUtf8 lib (fst (cb k))) (k + 1)"
    using Suc.prems by (intro authenticate_loop_skip) simp_all
  finally show ?case by simp
qed

lemma createHash_r6_cleared [simp]: "createHash_r6 lib (cleared h) = createHash_r6 lib h"
  by (simp add: createHash_r6_def cleared_def fun_eq_iff)

text \<open>
  C2, as the code has it. For revision 6, at the first candidate password whose owner
  check fails and whose user check succeeds, \<open>authenticate\<close> returns \<open>UserAuthorized\<close>;
  the file encryption key it stores is the CBC decryption, with a zero initialization
  vector and under the key derived from the password and the user key salt, of the
  entry \<open>OE\<close>. The entry \<open>UE\<close> is not read. Any fuel beyond the number of candidates
  tried gives this result.
\<close>

theorem authenticate_r6_user_decrypts_OE:
  assumes "m_R h = 6"
    and "\<forall>j < k. exhausted lib (cleared h) (candidate lib getPasswordCallback j)
                 \<and> snd (getPasswordCallback j)"
    and "createHash_r6 lib h
           (candidate lib getPasswordCallback k @ validationSalt (parseParts (m_O h)) @ m_U h)
           (candidate lib getPasswordCallback k) True \<noteq> hash (parseParts (m_O h))"
    and "createHash_r6 lib h
           (candidate lib getPasswordCallback k @ validationSalt (parseParts (m_U h)))
           (candidate lib getPasswordCallback k) False = hash (parseParts (m_U h))"
  shows "authenticate (Suc (k + extra)) lib getPasswordCallback h =
     Some (Inr (UserAuthorized,
                authorize (cleared h) UserAuthorized
                  (aes_cbc_decrypt lib
                     (createHash_r6 lib h
                        (candidate lib getPasswordCallback k @ keySalt (parseParts (m_U h)))
                        (candidate lib getPasswordCallback k) False)
                     zeroInitializationVector (m_OE h)),
                k))"
proof -
  let ?pw = "candidate lib getPasswordCallback k"
  have f: "m_U (cleared h) = m_U h" "m_O (cleared h) = m_O h" "m_OE (cleared h) = m_OE h"
    "m_R (cleared h) = 6" "\<not> isAuthorized (m_authorizationData (cleared h))"
    using assms(1) by (simp_all add: cleared_def isAuthorized_def AuthorizationData_default_def)
  have "authenticate_r6 lib (cleared h) ?pw =
     Inr (Some UserAuthorized,
          authorize (cleared h) UserAuthorized
            (aes_cbc_decrypt lib
               (createHash_r6 lib (cleared h) (?pw @ keySalt (parseParts (m_U (cleared h)))) ?pw False)
               zeroInitializationVector (m_OE (cleared h))))"
    by (rule authenticate_r6_user) (simp_all only: f createHash_r6_cleared assms(3,4) not_False_eq_True)
  then have p: "authenticate_pass lib (cleared h) ?pw =
     Inr (Some UserAuthorized,
          authorize (cleared h) UserAuthorized
            (aes_cbc_decrypt lib (createHash_r6 lib h (?pw @ keySalt (parseParts (m_U h))) ?pw False)
               zeroInitializationVector (m_OE h)))"
    by (simp add: authenticate_pass_def f)
  have "authenticate (Suc (k + extra)) lib getPasswordCallback h
      = authenticate_loop (k + Suc extra) lib getPasswordCallback (cleared h) [] 0"
    by (simp add: authenticate_def cleared_def)
  also have "\<dots> = authenticate_loop (Suc extra) lib getPasswordCallback (cleared h) ?pw k"
    by (rule authenticate_loop_advance [OF assms(2)])
  finally show ?thesis
    by (simp add: p)
qed

text \<open>The empty password with the stand-in library: the key comes from \<open>OE\<close>, not from \<open>UE\<close>.\<close>

theorem authenticate_r6_user_decrypts_OE_witness:
  "authenticate 1 toy_library provider_once handler_r6 =
     Some (Inr (UserAuthorized,
                authorize (cleared handler_r6) UserAuthorized
                  (aes_cbc_decrypt toy_library (replicate 32 0) zeroInitializationVector
                     (m_OE handler_r6)),
                0))
   \<and> aes_cbc_decrypt toy_library (replicate 32 0) zeroInitializationVector (m_OE handler_r6)
       = replicate 32 37
   \<and> aes_cbc_decrypt toy_library (replicate 32 0) zeroInitializationVector (m_UE handler_r6)
       = replicate 32 38"
proof -
  have r: "m_R handler_r6 = 6"
    by (simp add: handler_r6_def handler0_example_def)
  have o: "createHash_r6 toy_library handler_r6
       (candidate toy_library provider_once 0 @ validationSalt (parseParts (m_O handler_r6))
          @ m_U handler_r6)
       (candidate toy_library provider_once 0) True \<noteq> hash (parseParts (m_O handler_r6))"
    by (simp add: toy_createHash_r6 parseParts_def handler_r6_def handler0_example_def)
  have u: "createHash_r6 toy_library handler_r6
       (candidate toy_library provider_once 0 @ validationSalt (parseParts (m_U handler_r6)))
       (candidate toy_library provider_once 0) False = hash (parseParts (m_U handler_r6))"
    by (simp add: toy_createHash_r6 parseParts_def handler_r6_def handler0_example_def)
  have n: "\<forall>j < (0::nat). exhausted toy_library (cleared handler_r6) (candidate toy_library provider_once j)
                 \<and> snd (provider_once j)"
    by simp
  from authenticate_r6_user_decrypts_OE [OF r n o u, of 0]
  have "authenticate 1 toy_library provider_once handler_r6 =
     Some (Inr (UserAuthorized,
                authorize (cleared handler_r6) UserAuthorized
                  (aes_cbc_decrypt toy_library (replicate 32 0) zeroInitializationVector
                     (m_OE handler_r6)),
                0))"
    by (simp add: toy_createHash_r6)
  moreover have "aes_cbc_decrypt toy_library (replicate 32 0) zeroInitializationVector (m_OE handler_r6)
       = replicate 32 37"
    by (simp add: toy_library_def toy_cipher_def handler_r6_def handler0_example_def)
  moreover have "aes_cbc_decrypt toy_library (replicate 32 0) zeroInitializationVector (m_UE handler_r6)
       = replicate 32 38"
    by (simp add: toy_library_def toy_cipher_def handler_r6_def handler0_example_def)
  ultimately show ?thesis by blast
qed

section \<open>Proofs: createSecurityHandler\<close>

lemma bindE_Inr_iff: "bindE r f = Inr v \<longleftrightarrow> (\<exists>x. r = Inr x \<and> f x = Inr v)"
  by (cases r) (simp_all add: bindE_def)

lemma bindE_InrE:
  assumes "bindE r f = Inr v"
  obtains x where "r = Inr x" and "f x = Inr v"
  using assms by (auto simp: bindE_Inr_iff)

lemma if_Inl_InrE:
  assumes "(if c then Inl e else r) = Inr v"
  obtains "\<not> c" and "r = Inr v"
  using assms by (cases c) simp_all

lemma readRevision_keeps:
  assumes "readRevision dictionary handler id' = Inr h"
  shows "m_V h = m_V handler \<and> m_cryptFilters h = m_cryptFilters handler
       \<and> m_filterStreams h = m_filterStreams handler
       \<and> m_filterEmbeddedFiles h = m_filterEmbeddedFiles handler"
  using assms unfolding readRevision_def Let_def
  by (elim bindE_InrE if_Inl_InrE) (auto elim!: bindE_InrE split: if_split_asm option.splits)

lemma readCryptFilters_V:
  assumes "readCryptFilters dictionary handler = Inr h"
  shows "m_V h = m_V handler"
  using assms unfolding readCryptFilters_def Let_def
  by (elim bindE_InrE) (auto elim!: bindE_InrE split: if_split_asm)

lemma readCryptFilters_result:
  assumes "readCryptFilters dictionary handler = Inr h"
  shows "(\<exists>n. getName dictionary ''StmF'' False (Some ''Identity'') = Inr n
              \<and> m_cryptFilters h n = Some (m_filterStreams h))
       \<and> (if hasKey dictionary ''EFF''
           then \<exists>n. getName dictionary ''EFF'' True None = Inr n
                   \<and> m_cryptFilters h n = Some (m_filterEmbeddedFiles h)
           else m_filterEmbeddedFiles h = m_filterStreams h)"
  using assms unfolding readCryptFilters_def Let_def
  by (elim bindE_InrE)
     (auto elim!: bindE_InrE simp: resolveFilter_def split: if_split_asm option.splits)

lemma readVersion_V:
  assumes "readVersion handler0 filter0 dictionary = Inr h"
  shows "1 \<le> m_V h \<and> m_V h \<le> 5"
  using assms unfolding readVersion_def Let_def
  by (elim bindE_InrE if_Inl_InrE) auto

lemma readByteArray_length:
  "readByteArray dictionary key n = Inr bs \<Longrightarrow> int (length bs) = n"
  by (auto simp: readByteArray_def split: option.splits if_split_asm)

text \<open>
  A handler that \<open>createSecurityHandler\<close> builds has a supported revision, and for a
  revision other than 6 its entries \<open>O\<close> and \<open>U\<close> have 32 bytes.
\<close>

lemma readRevision_lengths:
  assumes "readRevision dictionary handler id' = Inr h"
  shows "(m_R h = 2 \<or> m_R h = 3 \<or> m_R h = 4 \<or> m_R h = 6)
       \<and> (m_R h \<noteq> 6 \<longrightarrow> length (m_O h) = 32 \<and> length (m_U h) = 32)"
  using assms unfolding readRevision_def Let_def
  by (elim bindE_InrE if_Inl_InrE)
     (auto elim!: bindE_InrE dest!: readByteArray_length split: if_split_asm option.splits)

lemma createSecurityHandler_lengths:
  assumes "createSecurityHandler handler0 filter0 encryptionDictionaryObject id' = Inr (Standard h)"
  shows "(m_R h = 2 \<or> m_R h = 3 \<or> m_R h = 4 \<or> m_R h = 6)
       \<and> (m_R h \<noteq> 6 \<longrightarrow> length (m_O h) = 32 \<and> length (m_U h) = 32)"
proof -
  from assms obtain dictionary hB where "readRevision dictionary hB id' = Inr h"
    unfolding createSecurityHandler_def
    by (auto elim!: bindE_InrE split: if_split_asm option.splits)
  then show ?thesis by (rule readRevision_lengths)
qed

text \<open>
  C9. For a handler built with \<open>V\<close> 4 or 5, the filter for streams is the entry of the
  crypt-filter table that \<open>StmF\<close> names (\<open>Identity\<close> by default); without an \<open>EFF\<close>
  entry the filter for embedded files equals the filter for streams, and with an \<open>EFF\<close>
  entry it is the entry of the crypt-filter table that \<open>EFF\<close> names.
\<close>

theorem createSecurityHandler_EFF:
  assumes "createSecurityHandler handler0 filter0 (Dictionary dictionary) id' = Inr (Standard h)"
    and "m_V h = 4 \<or> m_V h = 5"
  shows "(\<exists>n. getName dictionary ''StmF'' False (Some ''Identity'') = Inr n
              \<and> m_cryptFilters h n = Some (m_filterStreams h))
       \<and> (\<not> hasKey dictionary ''EFF'' \<longrightarrow> m_filterEmbeddedFiles h = m_filterStreams h)
       \<and> (hasKey dictionary ''EFF'' \<longrightarrow>
            (\<exists>n. getName dictionary ''EFF'' True None = Inr n
                 \<and> m_cryptFilters h n = Some (m_filterEmbeddedFiles h)))"
proof -
  from assms(1) obtain hA hB where
    a: "readVersion handler0 filter0 dictionary = Inr hA"
    and b: "(if m_V hA = 4 \<or> m_V hA = 5 then readCryptFilters dictionary hA else Inr hA) = Inr hB"
    and c: "readRevision dictionary hB id' = Inr h"
    unfolding createSecurityHandler_def
    by (auto elim!: bindE_InrE)
  note k = readRevision_keeps [OF c]
  have "m_V hB = m_V hA"
    using b by (auto dest: readCryptFilters_V split: if_split_asm)
  with k assms(2) have "m_V hA = 4 \<or> m_V hA = 5"
    by simp
  with b have "readCryptFilters dictionary hA = Inr hB"
    by simp
  from readCryptFilters_result [OF this] k show ?thesis
    by (auto split: if_split_asm)
qed

lemmas createSecurityHandler_eval =
  createSecurityHandler_def readVersion_def readCryptFilters_def readRevision_def
  parseCryptFilter_def resolveFilter_def hasKey_def bindE_def getName_def getInt_def
  readByteArray_def Let_def to_int_def handler0_example_def filter0_example_def

lemma handler_v4_built:
  "createSecurityHandler handler0_example filter0_example (Dictionary encrypt_v4) [1, 2] =
     Inr (Standard (handler_v4\<lparr>m_ID := [1, 2]\<rparr>))"
  by (simp add: createSecurityHandler_eval encrypt_v4_def handler_v4_def filters_v4_def)

lemma handler_v4_eff_built:
  "createSecurityHandler handler0_example filter0_example
     (Dictionary (encrypt_v4 @ [(''EFF'', Name ''Identity'')])) [1, 2] =
     Inr (Standard (handler_v4_eff\<lparr>m_ID := [1, 2]\<rparr>))"
  by (simp add: createSecurityHandler_eval encrypt_v4_def handler_v4_eff_def handler_v4_def
      filters_v4_def)

theorem createSecurityHandler_EFF_witness:
  "createSecurityHandler handler0_example filter0_example (Dictionary encrypt_v4) [1, 2] =
     Inr (Standard (handler_v4\<lparr>m_ID := [1, 2]\<rparr>))
   \<and> m_filterEmbeddedFiles (handler_v4\<lparr>m_ID := [1, 2]\<rparr>)
       = m_filterStreams (handler_v4\<lparr>m_ID := [1, 2]\<rparr>)
   \<and> createSecurityHandler handler0_example filter0_example
         (Dictionary (encrypt_v4 @ [(''EFF'', Name ''Identity'')])) [1, 2] =
       Inr (Standard (handler_v4_eff\<lparr>m_ID := [1, 2]\<rparr>))
   \<and> m_cryptFilters (handler_v4_eff\<lparr>m_ID := [1, 2]\<rparr>) ''Identity''
       = Some (m_filterEmbeddedFiles (handler_v4_eff\<lparr>m_ID := [1, 2]\<rparr>))"
proof -
  have v: "m_V (handler_v4\<lparr>m_ID := [1, 2]\<rparr>) = 4 \<or> m_V (handler_v4\<lparr>m_ID := [1, 2]\<rparr>) = 5"
    by (simp add: handler_v4_def)
  have v': "m_V (handler_v4_eff\<lparr>m_ID := [1, 2]\<rparr>) = 4 \<or> m_V (handler_v4_eff\<lparr>m_ID := [1, 2]\<rparr>) = 5"
    by (simp add: handler_v4_eff_def handler_v4_def)
  have n: "\<not> hasKey encrypt_v4 ''EFF''"
    by (simp add: hasKey_def encrypt_v4_def)
  have e: "hasKey (encrypt_v4 @ [(''EFF'', Name ''Identity'')]) ''EFF''"
    by (simp add: hasKey_def)
  have g: "getName (encrypt_v4 @ [(''EFF'', Name ''Identity'')]) ''EFF'' True None = Inr ''Identity''"
    by (simp add: getName_def encrypt_v4_def)
  from createSecurityHandler_EFF [OF handler_v4_built v] n
  have "m_filterEmbeddedFiles (handler_v4\<lparr>m_ID := [1, 2]\<rparr>)
       = m_filterStreams (handler_v4\<lparr>m_ID := [1, 2]\<rparr>)"
    by blast
  moreover from createSecurityHandler_EFF [OF handler_v4_eff_built v'] e g
  have "m_cryptFilters (handler_v4_eff\<lparr>m_ID := [1, 2]\<rparr>) ''Identity''
       = Some (m_filterEmbeddedFiles (handler_v4_eff\<lparr>m_ID := [1, 2]\<rparr>))"
    by auto
  ultimately show ?thesis
    using handler_v4_built handler_v4_eff_built by blast
qed

section \<open>Proofs: the object streams\<close>










section \<open>Proofs: readFromBuffer\<close>

lemma processObjectStream_skips:
  "\<not> m_successfull reader' \<Longrightarrow>
   processObjectStream env entries ref (reader', objects) = Inr (reader', objects)"
  by (simp add: processObjectStream_def)

lemma processObjectStreams_skip:
  assumes "\<not> m_successfull reader'"
  shows "processObjectStreams env xrefTable (reader', objects) = Inr (reader', objects)"
proof -
  have "for_each (processObjectStream env entries) refs (reader', objects)
          = Inr (reader', objects)"
    for entries refs
    using assms by (induction refs) (simp_all add: processObjectStream_skips bindE_def)
  then show ?thesis
    by (simp add: processObjectStreams_def Let_def)
qed

text \<open>
  A negative count \<open>N\<close> in the dictionary of a container: \<open>reserve\<close> throws, the task
  records nothing and is left by the exception.
\<close>

lemma objectStreamTask_negative_count:
  assumes "objectNumber objectStreamReference < int (length objects)"
    and "object (objects ! nat (objectNumber objectStreamReference))
           = Stream objectStreamDictionary content"
    and "asName (dict_get objectStreamDictionary ''Type'') = Some ''ObjStm''"
    and "asInt (dict_get objectStreamDictionary ''N'') = Some n"
    and "asInt (dict_get objectStreamDictionary ''First'') = Some first"
    and "n < 0"
  shows "objectStreamTask env objectStreamEntries objectStreamReference objects
           = Inl length_error"
    and "m_successfull reader' \<Longrightarrow>
         processObjectStream env objectStreamEntries objectStreamReference (reader', objects)
           = Inl length_error"
  using assms
  by (simp_all add: processObjectStream_def objectStreamTask_def reserve_def bindE_def Let_def)

text \<open>
  C1, as the code has it. \<open>readFromBuffer\<close> does not look at the success flag after
  either parallel phase: when the header part and the security part pass and the tasks
  of phase 9 run to their end, it returns the document built from the table as the two
  phases left it, with the reader's state as the tasks left it, and this document is not
  the default document. When a task of phase 5 has recorded a failure, the tasks of
  phase 9 do nothing, and the table returned is the one phase 5 left, filled in part.
\<close>

theorem readFromBuffer_returns_table:
  assumes "readHeader env reader buffer = Inr (reader1, xrefTable)"
    and "processEntries env buffer xrefTable reader1 = (reader5, objects5)"
    and "readSecurityHandler fuel env lib getPasswordCallback xrefTable objects5
           = Some (Inr securityHandler)"
    and "processObjectStreams env xrefTable (reader5, objects5) = Inr (reader9, objects9)"
  shows "readFromBuffer fuel env lib getPasswordCallback reader buffer =
       Some (Inr (PDFDocument \<lparr>m_objects = objects9, m_trailer = m_trailerDictionary xrefTable,
                               m_securityHandler = Some securityHandler\<rparr>, reader9))
     \<and> PDFDocument \<lparr>m_objects = objects9, m_trailer = m_trailerDictionary xrefTable,
                     m_securityHandler = Some securityHandler\<rparr> \<noteq> PDFDocument_default
     \<and> (\<not> m_successfull reader5 \<longrightarrow> reader9 = reader5 \<and> objects9 = objects5)"
  using assms processObjectStreams_skip [of reader5 env xrefTable objects5]
  by (auto simp: readFromBuffer_def PDFDocument_default_def)

lemma mismatch_header:
  "readHeader (toy_collaborators table_mismatch) reader_fresh buffer_mismatch
     = Inr (reader_fresh\<lparr>m_version := \<lparr>major = 1, minor = 7\<rparr>\<rparr>, table_mismatch)"
  by code_simp

lemma mismatch_entries:
  "processEntries (toy_collaborators table_mismatch) buffer_mismatch table_mismatch
     (reader_fresh\<lparr>m_version := \<lparr>major = 1, minor = 7\<rparr>\<rparr>)
     = (reader_failed, objects_partial)"
  by code_simp

lemma mismatch_security:
  "readSecurityHandler 1 (toy_collaborators table_mismatch) toy_library provider_once
     table_mismatch objects_partial = Some (Inr PDFNoneSecurityHandler)"
  by (simp add: readSecurityHandler_def trailerDictionaryOf_def table_mismatch_def
      documentId_def resolveEncrypt_def createSecurityHandler_def)

lemma mismatch_streams:
  "processObjectStreams (toy_collaborators table_mismatch) table_mismatch
     (reader_failed, objects_partial) = Inr (reader_failed, objects_partial)"
  by code_simp

text \<open>
  On this file the task for object 2 records the failure, and \<open>readFromBuffer\<close> returns a
  document whose table holds object 1 and an empty slot for object 2.
\<close>

theorem readFromBuffer_returns_table_witness:
  "readFromBuffer 1 (toy_collaborators table_mismatch) toy_library provider_once
     reader_fresh buffer_mismatch
   = Some (Inr (PDFDocument \<lparr>m_objects = objects_partial,
                             m_trailer = Dictionary [(''Size'', Integer 3)],
                             m_securityHandler = Some PDFNoneSecurityHandler\<rparr>,
                reader_failed))
   \<and> \<not> m_successfull reader_failed
   \<and> PDFDocument \<lparr>m_objects = objects_partial,
                   m_trailer = Dictionary [(''Size'', Integer 3)],
                   m_securityHandler = Some PDFNoneSecurityHandler\<rparr> \<noteq> PDFDocument_default"
  using readFromBuffer_returns_table
    [OF mismatch_header mismatch_entries mismatch_security mismatch_streams]
  by (simp add: table_mismatch_def reader_failed_def)

end
